theory Spec2Isabelle
  imports Main "HOL-Library.Sublist"
begin

section \<open>Data model\<close>

text \<open>
  The action is a script over three collaborators: the hosting API (octokit), the completion
  API (openai) and the diff parser (parse-diff). Two variants of the script are in the
  repository: \<^verbatim>\<open>src/main.ts\<close> (the newer one, with deduplication and per-comment
  publishing) and an older one (\<^verbatim>\<open>part_000\<close>; its functions carry the suffix
  \<open>_old\<close> here).

  Strings are \<open>char list\<close>s. Line numbers are JavaScript numbers that hold integers; a
  number that is no integer (\<open>NaN\<close>, a fraction, an infinity) is \<open>None\<close> where the code
  can meet one, since it is \<open>===\<close> to no line number.
\<close>

text \<open>
  \<open>Change\<close> is the tagged union that parse-diff declares (the declaration is imported, it
  is not part of the repository): an added line \<open>{type: 'add', ln, content}\<close> carries its
  new-side line number in \<open>ln\<close>, a deleted line \<open>{type: 'del', ln, content}\<close> its old-side
  line number in \<open>ln\<close>, and a context line \<open>{type: 'normal', ln1, ln2, content}\<close> the
  old-side number in \<open>ln1\<close> and the new-side number in \<open>ln2\<close>.
\<close>

datatype Change =
    AddChange string int
  | DeleteChange string int
  | NormalChange string int int

text \<open>\<open>'ln' in c ? Some c.ln : None\<close>, and the same for \<open>ln2\<close>; \<open>c.content\<close>.\<close>

fun prop_ln :: "Change \<Rightarrow> int option" where
  "prop_ln (AddChange s n) = Some n"
| "prop_ln (DeleteChange s n) = Some n"
| "prop_ln (NormalChange s n1 n2) = None"

fun prop_ln2 :: "Change \<Rightarrow> int option" where
  "prop_ln2 (AddChange s n) = None"
| "prop_ln2 (DeleteChange s n) = None"
| "prop_ln2 (NormalChange s n1 n2) = Some n2"

fun change_content :: "Change \<Rightarrow> string" where
  "change_content (AddChange s n) = s"
| "change_content (DeleteChange s n) = s"
| "change_content (NormalChange s n1 n2) = s"

text \<open>The two sides of a change, as parse-diff documents its fields.\<close>

fun old_side :: "Change \<Rightarrow> int option" where
  "old_side (AddChange s n) = None"
| "old_side (DeleteChange s n) = Some n"
| "old_side (NormalChange s n1 n2) = Some n1"

fun new_side :: "Change \<Rightarrow> int option" where
  "new_side (AddChange s n) = Some n"
| "new_side (DeleteChange s n) = None"
| "new_side (NormalChange s n1 n2) = Some n2"

fun is_deletion :: "Change \<Rightarrow> bool" where
  "is_deletion (DeleteChange s n) = True"
| "is_deletion c = False"

record Chunk =
  content :: string
  changes :: "Change list"

text \<open>\<open>to\<close> is optional in parse-diff's \<open>File\<close>: \<open>None\<close> is \<open>undefined\<close>.\<close>

record File =
  to :: "string option"
  chunks :: "Chunk list"

record PRDetails =
  owner :: string
  repo :: string
  pull_number :: int
  title :: string
  description :: string

text \<open>
  An item of the model's answer, at the type the script declares for it. \<open>lineNumber\<close>
  is the text that \<open>Number\<close> converts and that the diagnostic prints. \<open>optimizedCode\<close>
  is asked for and read by the older variant only; it holds the text that the template
  literal prints for the property (\<open>undefined\<close> when the answer has none).
\<close>

record ReviewItem =
  lineNumber :: string
  reviewComment :: string
  optimizedCode :: string

record Comment =
  body :: string
  path :: string
  line :: int

text \<open>
  The \<open>line\<close> property of a review comment as \<open>pulls.listReviewComments\<close> returns it.
  The type of the API declares an optional number (\<open>line?: number\<close>); the value can also be
  \<open>null\<close> at run time, and \<open>comment.line !== undefined\<close> holds of \<open>null\<close> as of a number.
\<close>

datatype line_property = LineUndefined | LineNull | LineNumber int

record ApiComment =
  api_path :: string
  api_line :: line_property
  api_body :: string

text \<open>
  An entry of the list that \<open>getExistingComments\<close> returns, declared
  \<open>{path: string; line: number; body: string}\<close>. \<open>existing_line\<close> is \<open>None\<close> where the value
  is \<open>null\<close>: the assertion \<open>comment.line!\<close> checks nothing at run time.
\<close>

record ExistingComment =
  existing_path :: string
  existing_line :: "int option"
  existing_body :: string

text \<open>
  The fields of the event payload that \<open>getPRDetails\<close> and \<open>main\<close> read. A run starts
  from a payload that was read and parsed; a missing or malformed payload, on which the
  script throws before its first request, is not modelled.
\<close>

record Event =
  action :: string
  repository_owner_login :: string
  repository_name :: string
  number :: int
  before :: string
  after :: string
  pull_request_head_sha :: string

section \<open>Effects\<close>

text \<open>
  Outbound requests, in the order they are sent. \<open>PullsCreateReviewComment\<close> has the
  arguments \<open>owner repo pull_number body path line side commit_id\<close>.
\<close>

datatype call =
    PullsGet string string int
  | PullsGetDiff string string int
  | ReposCompareCommits string string string string
  | PullsListReviewComments string string int
  | ChatCompletionsCreate string
  | PullsCreateReviewComment string string int string string int string string
  | PullsCreateReview string string int "Comment list" string

text \<open>The requests that fetch the metadata and the diff.\<close>

fun is_fetch :: "call \<Rightarrow> bool" where
  "is_fetch (PullsGet ow rp n) = True"
| "is_fetch (PullsGetDiff ow rp n) = True"
| "is_fetch (ReposCompareCommits ow rp b h) = True"
| "is_fetch c = False"

text \<open>
  Console output. The lines that only dump a data structure for debugging
  (\<open>"Parsed Diff:"\<close>, \<open>"Raw response:"\<close>, \<open>"Final comments to add:"\<close>,
  \<open>"Attempting to create review comments:"\<close>) are left out.
  \<open>RequestData owner repo pull_number comment commit_id\<close> is the object printed after
  \<open>"Request data:"\<close>.
\<close>

datatype console_line =
    ConsoleLog string
  | ConsoleError string
  | ConsoleLogComment string Comment
  | RequestData string string int Comment string

text \<open>What a run has done so far: the requests sent and the lines printed.\<close>

record world =
  calls :: "call list"
  console :: "console_line list"

text \<open>What a completion request comes back with: a rejected promise or a response that has
  no first choice (both throw inside the \<open>try\<close>), or the content of the first choice's
  message (\<open>None\<close> when it is \<open>null\<close>).\<close>

datatype completion = CompletionThrows | CompletionContent "string option"

text \<open>
  The value of \<open>JSON.parse(jsonContent).reviews\<close>: the evaluation throws (malformed JSON, or
  JSON for \<open>null\<close>), or the property is missing (\<open>undefined\<close>), \<open>null\<close>, an array of items,
  or some other value, of which only the truthiness matters.
\<close>

datatype reviews =
    Undefined
  | Null
  | Items "ReviewItem list"
  | OtherValue bool

datatype parsed = ParseThrows | Parsed reviews

datatype failure = RequestRejected | TypeError

text \<open>
  The environment of a run: the action's inputs (\<open>FRAMEWORK\<close>, \<open>exclude\<close>), the library
  functions the script calls, the texts that the \<open>get...Guidelines\<close> functions return
  (taken as parameters: nothing below depends on their wording; \<open>getRailsGuidelines_old\<close>
  is the text of the older variant), and the answers of the two services.
  \<^item> \<open>Number s\<close> is \<open>Number(s)\<close> when that is an integer and \<open>None\<close> otherwise;
  \<^item> \<open>minimatch p pattern\<close> and \<open>parseDiff diff\<close> are the library functions;
  \<^item> \<open>JSON_parse_reviews s\<close> is the outcome of \<open>JSON.parse(s).reviews\<close>;
  \<^item> a service answers as a function of the requests sent so far (the last one being the
    request it answers), so that nothing is assumed about two requests with the same
    arguments; \<open>None\<close> or \<open>False\<close> is a rejected request, \<open>pulls_get\<close> answers with the
    title and the body of the pull request (each may be \<open>null\<close>), the diff requests with
    the diff text.
\<close>

record env =
  FRAMEWORK :: string
  exclude :: string
  Number :: "string \<Rightarrow> int option"
  minimatch :: "string \<Rightarrow> string \<Rightarrow> bool"
  parseDiff :: "string \<Rightarrow> File list"
  JSON_parse_reviews :: "string \<Rightarrow> parsed"
  getRailsGuidelines :: string
  getRailsGuidelines_old :: string
  getAngularGuidelines :: string
  getAngularJSGuidelines :: string
  getCypressGuidelines :: string
  getTerraformGuidelines :: string
  pulls_get :: "call list \<Rightarrow> (string option \<times> string option) option"
  pulls_get_diff :: "call list \<Rightarrow> string option"
  repos_compareCommits :: "call list \<Rightarrow> string option"
  pulls_listReviewComments :: "call list \<Rightarrow> ApiComment list option"
  chat_completions_create :: "call list \<Rightarrow> completion"
  pulls_createReviewComment :: "call list \<Rightarrow> bool"
  pulls_createReview :: "call list \<Rightarrow> bool"

section \<open>Strings\<close>

text \<open>
  \<open>String.prototype.trim\<close>: the white space and line terminators of ECMAScript that a
  \<open>char\<close> can hold (tab, LF, VT, FF, CR, space, no-break space).
\<close>

definition is_space :: "char \<Rightarrow> bool" where
  "is_space c = (c \<in> set [CHR 0x09, CHR 0x0A, CHR 0x0B, CHR 0x0C, CHR 0x0D, CHR 0x20, CHR 0xA0])"

definition trim :: "string \<Rightarrow> string" where
  "trim s = rev (dropWhile is_space (rev (dropWhile is_space s)))"

text \<open>Template literals print an integer in decimal.\<close>

fun digits :: "nat \<Rightarrow> string" where
  "digits n =
     (if n < 10 then [''0123456789'' ! n]
      else digits (n div 10) @ [''0123456789'' ! (n mod 10)])"

declare digits.simps [simp del]

definition show_int :: "int \<Rightarrow> string" where
  "show_int i = (if i < 0 then ''-'' @ digits (nat (- i)) else digits (nat i))"

section \<open>Comment Mapper\<close>

text \<open>The predicate of \<open>chunk.changes.find\<close> in \<open>createComment\<close>; \<open>num\<close> is the local
  constant \<open>lineNumber = Number(aiResponse.lineNumber)\<close>.\<close>

definition matches :: "int option \<Rightarrow> Change \<Rightarrow> bool" where
  "matches num c =
     (if prop_ln c \<noteq> None \<and> prop_ln c = num then True
      else if prop_ln2 c \<noteq> None \<and> prop_ln2 c = num then True
      else False)"

text \<open>\<open>"ln" in change ? change.ln : "ln2" in change ? change.ln2 : 0\<close>\<close>

definition commentLine :: "Change \<Rightarrow> int" where
  "commentLine change =
     (case prop_ln change of Some n \<Rightarrow> n
      | None \<Rightarrow> (case prop_ln2 change of Some n \<Rightarrow> n | None \<Rightarrow> 0))"

definition not_found_message :: "string \<Rightarrow> string \<Rightarrow> string" where
  "not_found_message ln p = ''Line number '' @ ln @ '' not found in the diff for file '' @ p"

text \<open>
  The callback of \<open>aiResponses.flatMap\<close> in \<open>src/main.ts\<close>: the comments of one item and
  the lines it prints.
\<close>

definition createComment_item :: "env \<Rightarrow> File \<Rightarrow> Chunk \<Rightarrow> ReviewItem \<Rightarrow> Comment list \<times> console_line list" where
  "createComment_item e file chunk aiResponse =
     (case to file of
        None \<Rightarrow> ([], [])
      | Some p \<Rightarrow>
          if p = [] then ([], [])
          else
            (case find (matches (Number e (lineNumber aiResponse))) (changes chunk) of
               None \<Rightarrow> ([], [ConsoleError (not_found_message (lineNumber aiResponse) p)])
             | Some change \<Rightarrow>
                 ([\<lparr>body = reviewComment aiResponse, path = p, line = commentLine change\<rparr>], [])))"

fun createComment :: "env \<Rightarrow> File \<Rightarrow> Chunk \<Rightarrow> ReviewItem list \<Rightarrow> Comment list \<times> console_line list" where
  "createComment e file chunk [] = ([], [])"
| "createComment e file chunk (r # rs) =
     (fst (createComment_item e file chunk r) @ fst (createComment e file chunk rs),
      snd (createComment_item e file chunk r) @ snd (createComment e file chunk rs))"

text \<open>The older variant differs in the body only, which quotes the optimized code.\<close>

definition code_language :: "env \<Rightarrow> string" where
  "code_language e =
     (if FRAMEWORK e = ''Ruby on Rails'' then ''ruby''
      else if FRAMEWORK e = ''Cypress'' then ''javascript'' else ''typescript'')"

definition body_old :: "env \<Rightarrow> ReviewItem \<Rightarrow> string" where
  "body_old e aiResponse =
     reviewComment aiResponse @ [CHR 0x0A, CHR 0x0A] @ ''**Optimized Code:**'' @ [CHR 0x0A]
       @ ''```'' @ code_language e @ [CHR 0x0A] @ optimizedCode aiResponse @ [CHR 0x0A] @ ''```''"

definition createComment_item_old :: "env \<Rightarrow> File \<Rightarrow> Chunk \<Rightarrow> ReviewItem \<Rightarrow> Comment list \<times> console_line list" where
  "createComment_item_old e file chunk aiResponse =
     (case to file of
        None \<Rightarrow> ([], [])
      | Some p \<Rightarrow>
          if p = [] then ([], [])
          else
            (case find (matches (Number e (lineNumber aiResponse))) (changes chunk) of
               None \<Rightarrow> ([], [ConsoleError (not_found_message (lineNumber aiResponse) p)])
             | Some change \<Rightarrow>
                 ([\<lparr>body = body_old e aiResponse, path = p, line = commentLine change\<rparr>], [])))"

fun createComment_old :: "env \<Rightarrow> File \<Rightarrow> Chunk \<Rightarrow> ReviewItem list \<Rightarrow> Comment list \<times> console_line list" where
  "createComment_old e file chunk [] = ([], [])"
| "createComment_old e file chunk (r # rs) =
     (fst (createComment_item_old e file chunk r) @ fst (createComment_old e file chunk rs),
      snd (createComment_item_old e file chunk r) @ snd (createComment_old e file chunk rs))"

section \<open>Prompt Builder\<close>

text \<open>\<open>Array.prototype.join\<close>.\<close>

fun join :: "string \<Rightarrow> string list \<Rightarrow> string" where
  "join sep [] = []"
| "join sep [x] = x"
| "join sep (x # y # ys) = x @ sep @ join sep (y # ys)"

text \<open>
  The callback of \<open>chunk.changes.map\<close>:
  \<open>`${'ln' in c ? c.ln : 'ln2' in c ? c.ln2 : ''} ${c.content}`\<close>
\<close>

definition annotate :: "Change \<Rightarrow> string" where
  "annotate c =
     (case prop_ln c of Some n \<Rightarrow> show_int n
      | None \<Rightarrow> (case prop_ln2 c of Some n \<Rightarrow> show_int n | None \<Rightarrow> [])) @ '' '' @ change_content c"

text \<open>\<open>${file.to}\<close>: a missing property prints as \<open>undefined\<close>.\<close>

definition show_to :: "File \<Rightarrow> string" where
  "show_to file = (case to file of None \<Rightarrow> ''undefined'' | Some p \<Rightarrow> p)"

text \<open>
  \<open>createPrompt\<close> of \<open>src/main.ts\<close>. The template literal is written line by line; the
  text that \<open>getRailsGuidelines()\<close> returns is a parameter (\<open>getRailsGuidelines e\<close>).
\<close>

definition guidelines :: "env \<Rightarrow> string" where
  "guidelines e = (if FRAMEWORK e = ''Ruby on Rails'' then getRailsGuidelines e else [])"

definition createPrompt :: "env \<Rightarrow> File \<Rightarrow> Chunk \<Rightarrow> PRDetails \<Rightarrow> string" where
  \<open>createPrompt e file chunk prDetails = join [CHR 0x0A]
     [''Your task is to review pull requests for '' @ FRAMEWORK e @ '' code. Instructions:'',
      ''- Provide the response in the following JSON format:  {"reviews": [{"lineNumber":  <line_number>, "reviewComment": "<review comment>"}]}'',
      ''- Do not give positive comments or compliments.'',
      ''- Provide comments and suggestions ONLY if there is something to improve, otherwise "reviews" should be an empty array.'',
      ''- Write the comment in GitHub Markdown format.'',
      ''- Use the given description only for the overall context and only comment on the code.'',
      ''- IMPORTANT: NEVER suggest adding comments to the code.'',
      guidelines e,
      [],
      ''Review the following code diff in the file "'' @ show_to file @ ''" and take the pull request title and description into account when writing the response.'',
      ''  '',
      ''Pull request title: '' @ title prDetails,
      ''Pull request description:'',
      [],
      ''---'',
      description prDetails,
      ''---'',
      [],
      ''Git diff to review:'',
      [],
      ''```diff'',
      content chunk,
      join [CHR 0x0A] (map annotate (changes chunk)),
      ''```'',
      []]\<close>

text \<open>\<open>createPrompt\<close> of the older variant, which knows five frameworks.\<close>

definition guidelines_old :: "env \<Rightarrow> string" where
  "guidelines_old e =
     (if FRAMEWORK e = ''Ruby on Rails'' then getRailsGuidelines_old e
      else if FRAMEWORK e = ''Angular'' then getAngularGuidelines e
      else if FRAMEWORK e = ''AngularJS'' then getAngularJSGuidelines e
      else if FRAMEWORK e = ''Cypress'' then getCypressGuidelines e
      else if FRAMEWORK e = ''Terraform'' then getTerraformGuidelines e
      else [])"

definition createPrompt_old :: "env \<Rightarrow> File \<Rightarrow> Chunk \<Rightarrow> PRDetails \<Rightarrow> string" where
  \<open>createPrompt_old e file chunk prDetails = join [CHR 0x0A]
     [''Your task is to review a pull request for '' @ FRAMEWORK e @ '' code. Follow these instructions:'',
      [],
      ''- Provide your response in JSON format: {"reviews": [{"lineNumber": <line_number>, "reviewComment": "<review comment>", "optimizedCode": "<optimized code>"}]}'',
      ''- Comment only where there is an issue or a suggestion for improvement. No positive comments.'',
      ''- Use GitHub Markdown format for comments.'',
      ''- For each issue or suggestion, provide the optimized code snippet.'',
      ''- Identify specific types of issues:'',
      ''  - **Security**: Look for vulnerabilities such as SQL injection, XSS, and insecure configurations.'',
      ''  - **Performance**: Identify potential performance bottlenecks and suggest optimizations.'',
      ''  - **Maintainability**: Ensure the code is easy to read and maintain. Suggest refactoring if necessary.'',
      ''  - **Best Practices**: Ensure adherence to best practices specific to '' @ FRAMEWORK e @ '' and the overall project.'',
      ''  - **Testing**: Verify that the code changes include appropriate tests. If not, suggest adding tests.'',
      ''  - **Documentation**: Check if the code changes are well-documented. If not, suggest improvements in documentation.'',
      [],
      guidelines_old e,
      [],
      ''Review the following code diff in the file "'' @ show_to file @ ''", considering the pull request title and description for context:'',
      [],
      ''Pull request title: '' @ title prDetails,
      ''Pull request description:'',
      [],
      ''---'',
      description prDetails,
      ''---'',
      [],
      ''Git diff to review:'',
      [],
      ''```diff'',
      content chunk,
      join [CHR 0x0A] (map annotate (changes chunk)),
      ''```'',
      []]\<close>

section \<open>Review Client\<close>

text \<open>
  \<open>res.match(/```json([\s\S]*)```/)\<close>, capture group 1. A match starts at the leftmost
  \<open>```json\<close> that has a closing fence after it, which is the first \<open>```json\<close> of the
  text (a closing fence after a later one is also after the first); the group is greedy,
  so it runs to the last closing fence.
\<close>

fun after_first :: "string \<Rightarrow> string \<Rightarrow> string option" where
  "after_first pat [] = (if pat = [] then Some [] else None)"
| "after_first pat (c # cs) =
     (if prefix pat (c # cs) then Some (drop (length pat) (c # cs)) else after_first pat cs)"

definition before_last :: "string \<Rightarrow> string \<Rightarrow> string option" where
  "before_last pat s = map_option rev (after_first (rev pat) (rev s))"

definition match_json_block :: "string \<Rightarrow> string option" where
  "match_json_block res =
     (case after_first ''```json'' res of
        None \<Rightarrow> None
      | Some rest \<Rightarrow> before_last ''```'' rest)"

definition send :: "call \<Rightarrow> world \<Rightarrow> world" where
  "send c w = w\<lparr>calls := calls w @ [c]\<rparr>"

definition emit :: "console_line list \<Rightarrow> world \<Rightarrow> world" where
  "emit ls w = w\<lparr>console := console w @ ls\<rparr>"

text \<open>\<open>response.choices[0].message?.content?.trim() || ""\<close>\<close>

definition response_text :: "string option \<Rightarrow> string" where
  "response_text c = (case c of None \<Rightarrow> [] | Some s \<Rightarrow> trim s)"

text \<open>
  The end of \<open>getAIResponse\<close>, from \<open>if (!jsonContent)\<close> on, the same in both variants: the
  value the function resolves to (\<open>Null\<close> where it returns \<open>null\<close>) and the world after it.
\<close>

definition parse_json_content :: "env \<Rightarrow> string \<Rightarrow> world \<Rightarrow> reviews \<times> world" where
  "parse_json_content e jsonContent w =
     (if jsonContent = []
      then (Null, emit [ConsoleError ''Failed to extract JSON content from response.''] w)
      else (case JSON_parse_reviews e jsonContent of
              ParseThrows \<Rightarrow>
                (Null, emit [ConsoleError ''Failed to parse JSON:'',
                             ConsoleError (''Response content: '' @ jsonContent)] w)
            | Parsed r \<Rightarrow> (r, w)))"

text \<open>\<open>getAIResponse\<close> of \<open>src/main.ts\<close>.\<close>

definition getAIResponse :: "env \<Rightarrow> string \<Rightarrow> world \<Rightarrow> reviews \<times> world" where
  "getAIResponse e prompt w =
     (let w1 = send (ChatCompletionsCreate prompt) w in
      case chat_completions_create e (calls w1) of
        CompletionThrows \<Rightarrow> (Null, emit [ConsoleError ''Error:''] w1)
      | CompletionContent c \<Rightarrow>
          (let res = response_text c;
               jsonContent = (case match_json_block res of Some g \<Rightarrow> g | None \<Rightarrow> res)
           in parse_json_content e jsonContent w1))"

text \<open>
  The older variant has no second branch: \<open>res.match(...)?.[1]\<close> alone, which is
  \<open>undefined\<close> when nothing matches.
\<close>

definition getAIResponse_old :: "env \<Rightarrow> string \<Rightarrow> world \<Rightarrow> reviews \<times> world" where
  "getAIResponse_old e prompt w =
     (let w1 = send (ChatCompletionsCreate prompt) w in
      case chat_completions_create e (calls w1) of
        CompletionThrows \<Rightarrow> (Null, emit [ConsoleError ''Error:''] w1)
      | CompletionContent c \<Rightarrow>
          (let res = response_text c in
           case match_json_block res of
             None \<Rightarrow> (Null, emit [ConsoleError ''Failed to extract JSON content from response.''] w1)
           | Some jsonContent \<Rightarrow> parse_json_content e jsonContent w1))"

text \<open>\<open>if (aiResponse)\<close>: an array is truthy, also the empty one.\<close>

fun truthy :: "reviews \<Rightarrow> bool" where
  "truthy Undefined = False"
| "truthy Null = False"
| "truthy (Items rs) = True"
| "truthy (OtherValue b) = b"

section \<open>Analysis and Deduplicator\<close>

text \<open>
  The predicate of \<open>existingComments.some\<close> in \<open>analyzeCode\<close>. A line that is \<open>null\<close> is
  \<open>===\<close> to no number.
\<close>

definition duplicate :: "ExistingComment list \<Rightarrow> Comment \<Rightarrow> bool" where
  "duplicate existingComments comment =
     list_ex (\<lambda>existingComment.
        existing_path existingComment = path comment \<and>
        existing_line existingComment = Some (line comment) \<and>
        trim (existing_body existingComment) = trim (body comment)) existingComments"

text \<open>The loop \<open>for (const comment of newComments)\<close>, on the comment list and the world.\<close>

fun push_comments ::
  "ExistingComment list \<Rightarrow> Comment list \<Rightarrow> Comment list \<times> world \<Rightarrow> Comment list \<times> world" where
  "push_comments existingComments [] (comments, w) = (comments, w)"
| "push_comments existingComments (comment # rest) (comments, w) =
     (let w1 = emit [ConsoleLogComment ''Processing comment:'' comment] w in
      if \<not> duplicate existingComments comment
      then push_comments existingComments rest (comments @ [comment], w1)
      else push_comments existingComments rest
             (comments, emit [ConsoleLogComment ''Duplicate comment found, skipping:'' comment] w1))"

text \<open>
  The loop \<open>for (const chunk of file.chunks)\<close>. A truthy answer that is no array has no
  \<open>flatMap\<close>: \<open>createComment\<close> throws a \<open>TypeError\<close>, which nothing catches.
\<close>

fun analyze_chunks ::
  "env \<Rightarrow> File \<Rightarrow> PRDetails \<Rightarrow> ExistingComment list \<Rightarrow> Chunk list \<Rightarrow> Comment list \<times> world
     \<Rightarrow> (failure + Comment list) \<times> world" where
  "analyze_chunks e file prDetails existingComments [] (comments, w) = (Inr comments, w)"
| "analyze_chunks e file prDetails existingComments (chunk # rest) (comments, w) =
     (let prompt = createPrompt e file chunk prDetails;
          (aiResponse, w1) = getAIResponse e prompt w
      in if truthy aiResponse
         then (case aiResponse of
                 Items rs \<Rightarrow>
                   (let (newComments, ls) = createComment e file chunk rs
                    in analyze_chunks e file prDetails existingComments rest
                         (push_comments existingComments newComments (comments, emit ls w1)))
               | _ \<Rightarrow> (Inl TypeError, w1))
         else analyze_chunks e file prDetails existingComments rest (comments, w1))"

text \<open>The loop \<open>for (const file of parsedDiff)\<close>.\<close>

fun analyze_files ::
  "env \<Rightarrow> PRDetails \<Rightarrow> ExistingComment list \<Rightarrow> File list \<Rightarrow> Comment list \<times> world
     \<Rightarrow> (failure + Comment list) \<times> world" where
  "analyze_files e prDetails existingComments [] (comments, w) = (Inr comments, w)"
| "analyze_files e prDetails existingComments (file # rest) (comments, w) =
     (if to file = Some ''/dev/null'' then analyze_files e prDetails existingComments rest (comments, w)
      else (case analyze_chunks e file prDetails existingComments (chunks file) (comments, w) of
              (Inl f, w1) \<Rightarrow> (Inl f, w1)
            | (Inr comments1, w1) \<Rightarrow> analyze_files e prDetails existingComments rest (comments1, w1)))"

definition analyzeCode ::
  "env \<Rightarrow> File list \<Rightarrow> PRDetails \<Rightarrow> ExistingComment list \<Rightarrow> world
     \<Rightarrow> (failure + Comment list) \<times> world" where
  "analyzeCode e parsedDiff prDetails existingComments w =
     analyze_files e prDetails existingComments parsedDiff ([], w)"

text \<open>The older variant pushes every new comment.\<close>

fun analyze_chunks_old ::
  "env \<Rightarrow> File \<Rightarrow> PRDetails \<Rightarrow> Chunk list \<Rightarrow> Comment list \<times> world
     \<Rightarrow> (failure + Comment list) \<times> world" where
  "analyze_chunks_old e file prDetails [] (comments, w) = (Inr comments, w)"
| "analyze_chunks_old e file prDetails (chunk # rest) (comments, w) =
     (let prompt = createPrompt_old e file chunk prDetails;
          (aiResponse, w1) = getAIResponse_old e prompt w
      in if truthy aiResponse
         then (case aiResponse of
                 Items rs \<Rightarrow>
                   (let (newComments, ls) = createComment_old e file chunk rs
                    in analyze_chunks_old e file prDetails rest (comments @ newComments, emit ls w1))
               | _ \<Rightarrow> (Inl TypeError, w1))
         else analyze_chunks_old e file prDetails rest (comments, w1))"

fun analyze_files_old ::
  "env \<Rightarrow> PRDetails \<Rightarrow> File list \<Rightarrow> Comment list \<times> world \<Rightarrow> (failure + Comment list) \<times> world" where
  "analyze_files_old e prDetails [] (comments, w) = (Inr comments, w)"
| "analyze_files_old e prDetails (file # rest) (comments, w) =
     (if to file = Some ''/dev/null'' then analyze_files_old e prDetails rest (comments, w)
      else (case analyze_chunks_old e file prDetails (chunks file) (comments, w) of
              (Inl f, w1) \<Rightarrow> (Inl f, w1)
            | (Inr comments1, w1) \<Rightarrow> analyze_files_old e prDetails rest (comments1, w1)))"

definition analyzeCode_old ::
  "env \<Rightarrow> File list \<Rightarrow> PRDetails \<Rightarrow> world \<Rightarrow> (failure + Comment list) \<times> world" where
  "analyzeCode_old e parsedDiff prDetails w = analyze_files_old e prDetails parsedDiff ([], w)"

section \<open>Hosting API: metadata, diff, existing comments, publishing\<close>

text \<open>
  \<open>getPRDetails\<close>, on an event payload that was read and parsed. A rejected request
  throws, and nothing in the script catches it before \<open>main().catch\<close>.
\<close>

definition getPRDetails :: "env \<Rightarrow> Event \<Rightarrow> world \<Rightarrow> (failure + PRDetails) \<times> world" where
  "getPRDetails e ev w =
     (let w1 = send (PullsGet (repository_owner_login ev) (repository_name ev) (number ev)) w in
      case pulls_get e (calls w1) of
        None \<Rightarrow> (Inl RequestRejected, w1)
      | Some (t, b) \<Rightarrow>
          (Inr \<lparr>owner = repository_owner_login ev, repo = repository_name ev,
                pull_number = number ev,
                title = (case t of None \<Rightarrow> [] | Some s \<Rightarrow> s),
                description = (case b of None \<Rightarrow> [] | Some s \<Rightarrow> s)\<rparr>, w1))"

definition getDiff :: "env \<Rightarrow> string \<Rightarrow> string \<Rightarrow> int \<Rightarrow> world \<Rightarrow> (failure + string) \<times> world" where
  "getDiff e owner' repo' pull_number' w =
     (let w1 = send (PullsGetDiff owner' repo' pull_number') w in
      case pulls_get_diff e (calls w1) of
        None \<Rightarrow> (Inl RequestRejected, w1)
      | Some data \<Rightarrow> (Inr data, w1))"

text \<open>\<open>comment.line!\<close>: the value as it is, a number or \<open>null\<close> once the filter has passed.\<close>

fun line_value :: "line_property \<Rightarrow> int option" where
  "line_value (LineNumber n) = Some n"
| "line_value LineNull = None"
| "line_value LineUndefined = None"

text \<open>
  The filter is \<open>comment.line !== undefined\<close>: it leaves out the comments listed without a
  \<open>line\<close> and keeps those whose \<open>line\<close> is \<open>null\<close>.
\<close>

definition getExistingComments ::
  "env \<Rightarrow> string \<Rightarrow> string \<Rightarrow> int \<Rightarrow> world \<Rightarrow> (failure + ExistingComment list) \<times> world" where
  "getExistingComments e owner' repo' pull_number' w =
     (let w1 = send (PullsListReviewComments owner' repo' pull_number') w in
      case pulls_listReviewComments e (calls w1) of
        None \<Rightarrow> (Inl RequestRejected, w1)
      | Some data \<Rightarrow>
          (Inr (map (\<lambda>comment. \<lparr>existing_path = api_path comment,
                                  existing_line = line_value (api_line comment),
                                  existing_body = api_body comment\<rparr>)
                  (filter (\<lambda>comment. api_line comment \<noteq> LineUndefined) data)), w1))"

text \<open>The filter of \<open>createReviewComment\<close> in \<open>src/main.ts\<close>.\<close>

definition valid :: "Comment \<Rightarrow> bool" where
  "valid comment = (path comment \<noteq> [] \<and> line comment > 0 \<and> trim (body comment) \<noteq> [])"

text \<open>The loop \<open>for (const comment of validComments)\<close> with its \<open>try\<close>/\<open>catch\<close>.\<close>

fun post_comments :: "env \<Rightarrow> string \<Rightarrow> string \<Rightarrow> int \<Rightarrow> string \<Rightarrow> Comment list \<Rightarrow> world \<Rightarrow> world" where
  "post_comments e owner' repo' pull_number' commit_id [] w = w"
| "post_comments e owner' repo' pull_number' commit_id (comment # rest) w =
     (let w1 = send (PullsCreateReviewComment owner' repo' pull_number'
                       (body comment) (path comment) (line comment) ''RIGHT'' commit_id) w
      in if pulls_createReviewComment e (calls w1)
         then post_comments e owner' repo' pull_number' commit_id rest w1
         else post_comments e owner' repo' pull_number' commit_id rest
                (emit [ConsoleError ''Error creating review comment:'',
                       RequestData owner' repo' pull_number' comment commit_id] w1))"

definition createReviewComment ::
  "env \<Rightarrow> string \<Rightarrow> string \<Rightarrow> int \<Rightarrow> Comment list \<Rightarrow> string \<Rightarrow> world \<Rightarrow> world" where
  "createReviewComment e owner' repo' pull_number' comments commit_id w =
     (let validComments = filter valid comments in
      if length validComments = 0 then emit [ConsoleLog ''No valid comments to add''] w
      else post_comments e owner' repo' pull_number' commit_id validComments w)"

text \<open>The older variant sends one review; a rejection is not caught.\<close>

definition createReviewComment_old ::
  "env \<Rightarrow> string \<Rightarrow> string \<Rightarrow> int \<Rightarrow> Comment list \<Rightarrow> world \<Rightarrow> (failure + unit) \<times> world" where
  "createReviewComment_old e owner' repo' pull_number' comments w =
     (let w1 = send (PullsCreateReview owner' repo' pull_number' comments ''COMMENT'') w in
      if pulls_createReview e (calls w1) then (Inr (), w1) else (Inl RequestRejected, w1))"

section \<open>Exclusion Filter and main\<close>

text \<open>\<open>String.prototype.split\<close> with a one-character separator.\<close>

fun split :: "char \<Rightarrow> string \<Rightarrow> string list" where
  "split sep [] = [[]]"
| "split sep (c # cs) =
     (if c = sep then [] # split sep cs
      else (case split sep cs of [] \<Rightarrow> [[c]] | x # xs \<Rightarrow> (c # x) # xs))"

definition excludePatterns :: "env \<Rightarrow> string list" where
  "excludePatterns e = map trim (split CHR '','' (exclude e))"

text \<open>\<open>file.to ?? ""\<close>\<close>

definition to_or_empty :: "File \<Rightarrow> string" where
  "to_or_empty file = (case to file of None \<Rightarrow> [] | Some p \<Rightarrow> p)"

definition filteredDiff :: "env \<Rightarrow> File list \<Rightarrow> File list" where
  "filteredDiff e parsedDiff =
     filter (\<lambda>file. \<not> list_ex (\<lambda>pattern. minimatch e (to_or_empty file) pattern) (excludePatterns e))
       parsedDiff"

text \<open>
  \<open>main\<close> of \<open>src/main.ts\<close> from \<open>if (!diff)\<close> on. A diff that is \<open>null\<close> is the empty
  string here: both take the first branch.
\<close>

definition review_diff :: "env \<Rightarrow> PRDetails \<Rightarrow> string \<Rightarrow> string \<Rightarrow> world \<Rightarrow> (failure + unit) \<times> world" where
  "review_diff e prDetails diff commit_id w =
     (if diff = [] then (Inr (), emit [ConsoleLog ''No diff found''] w)
      else
        (let parsedDiff = parseDiff e diff;
             filtered = filteredDiff e parsedDiff
         in
         case getExistingComments e (owner prDetails) (repo prDetails) (pull_number prDetails) w of
           (Inl f, w1) \<Rightarrow> (Inl f, w1)
         | (Inr existingComments, w1) \<Rightarrow>
             (case analyzeCode e filtered prDetails existingComments w1 of
                (Inl f, w2) \<Rightarrow> (Inl f, w2)
              | (Inr comments, w2) \<Rightarrow>
                  if length comments > 0
                  then (Inr (), createReviewComment e (owner prDetails) (repo prDetails)
                                  (pull_number prDetails) comments commit_id w2)
                  else (Inr (), w2))))"

definition main :: "env \<Rightarrow> Event \<Rightarrow> world \<Rightarrow> (failure + unit) \<times> world" where
  "main e eventData w =
     (case getPRDetails e eventData w of
        (Inl f, w1) \<Rightarrow> (Inl f, w1)
      | (Inr prDetails, w1) \<Rightarrow>
          if action eventData = ''opened'' then
            (case getDiff e (owner prDetails) (repo prDetails) (pull_number prDetails) w1 of
               (Inl f, w2) \<Rightarrow> (Inl f, w2)
             | (Inr diff, w2) \<Rightarrow> review_diff e prDetails diff (pull_request_head_sha eventData) w2)
          else if action eventData = ''synchronize'' then
            (let newBaseSha = before eventData;
                 newHeadSha = after eventData;
                 w2 = send (ReposCompareCommits (owner prDetails) (repo prDetails) newBaseSha newHeadSha) w1
             in case repos_compareCommits e (calls w2) of
                  None \<Rightarrow> (Inl RequestRejected, w2)
                | Some data \<Rightarrow> review_diff e prDetails data newHeadSha w2)
          else (Inr (), emit [ConsoleLog ''Unsupported event:''] w1))"

text \<open>The same for the older variant, which has no ledger and no commit identifier.\<close>

definition review_diff_old :: "env \<Rightarrow> PRDetails \<Rightarrow> string \<Rightarrow> world \<Rightarrow> (failure + unit) \<times> world" where
  "review_diff_old e prDetails diff w =
     (if diff = [] then (Inr (), emit [ConsoleLog ''No diff found''] w)
      else
        (let parsedDiff = parseDiff e diff;
             filtered = filteredDiff e parsedDiff
         in
         case analyzeCode_old e filtered prDetails w of
           (Inl f, w2) \<Rightarrow> (Inl f, w2)
         | (Inr comments, w2) \<Rightarrow>
             if length comments > 0
             then createReviewComment_old e (owner prDetails) (repo prDetails)
                    (pull_number prDetails) comments w2
             else (Inr (), w2)))"

definition main_old :: "env \<Rightarrow> Event \<Rightarrow> world \<Rightarrow> (failure + unit) \<times> world" where
  "main_old e eventData w =
     (case getPRDetails e eventData w of
        (Inl f, w1) \<Rightarrow> (Inl f, w1)
      | (Inr prDetails, w1) \<Rightarrow>
          if action eventData = ''opened'' then
            (case getDiff e (owner prDetails) (repo prDetails) (pull_number prDetails) w1 of
               (Inl f, w2) \<Rightarrow> (Inl f, w2)
             | (Inr diff, w2) \<Rightarrow> review_diff_old e prDetails diff w2)
          else if action eventData = ''synchronize'' then
            (let newBaseSha = before eventData;
                 newHeadSha = after eventData;
                 w2 = send (ReposCompareCommits (owner prDetails) (repo prDetails) newBaseSha newHeadSha) w1
             in case repos_compareCommits e (calls w2) of
                  None \<Rightarrow> (Inl RequestRejected, w2)
                | Some data \<Rightarrow> review_diff_old e prDetails data w2)
          else (Inr (), emit [ConsoleLog ''Unsupported event:''] w1))"

section \<open>A sample run\<close>

text \<open>
  Concrete inputs for the examples below. \<open>Number_digits\<close> is \<open>Number\<close> on the strings
  of decimal digits, \<open>JSON_sample\<close> is \<open>JSON.parse(s).reviews\<close> on the two strings it
  names, and the sample \<open>minimatch\<close> is the library's on patterns without glob characters;
  the examples use them on such arguments only.
\<close>

definition Number_digits :: "string \<Rightarrow> int option" where
  "Number_digits s =
     (if s \<noteq> [] \<and> list_all (\<lambda>c. c \<in> set ''0123456789'') s
      then Some (foldl (\<lambda>a c. 10 * a + (of_char c - 48)) 0 s) else None)"

definition JSON_sample :: "string \<Rightarrow> parsed" where
  \<open>JSON_sample s =
     (if s = ''{"reviews":[{"lineNumber":"42","reviewComment":"avoid magic number"}]}''
      then Parsed (Items [\<lparr>lineNumber = ''42'', reviewComment = ''avoid magic number'',
                           optimizedCode = ''undefined''\<rparr>])
      else if s = ''{}'' then Parsed Undefined
      else ParseThrows)\<close>

definition sample_chunk :: Chunk where
  "sample_chunk = \<lparr>content = ''@@ -40,2 +40,3 @@'',
     changes = [NormalChange '' const a = 1;'' 40 40,
                DeleteChange ''-const n = 7;'' 41,
                AddChange ''+const n = 9;'' 41,
                AddChange ''+const limit = 42;'' 42]\<rparr>"

definition sample_file :: File where
  "sample_file = \<lparr>to = Some ''src/limit.ts'', chunks = [sample_chunk]\<rparr>"

definition sample_env :: env where
  \<open>sample_env =
     \<lparr>FRAMEWORK = ''Angular'', exclude = ''dist/out.js, package-lock.json'',
      Number = Number_digits, minimatch = (\<lambda>p pattern. p = pattern),
      parseDiff = (\<lambda>diff. [\<lparr>to = Some ''package-lock.json'', chunks = []\<rparr>, sample_file]),
      JSON_parse_reviews = JSON_sample,
      getRailsGuidelines = ''- Code Style'', getRailsGuidelines_old = ''- **Code Quality**'',
      getAngularGuidelines = ''- **Templates**'', getAngularJSGuidelines = ''- **Scope Management**'',
      getCypressGuidelines = ''- **Selectors**'', getTerraformGuidelines = ''- **Ignore reviewing commentlines**'',
      pulls_get = (\<lambda>cs. Some (Some ''Raise the limit'', None)),
      pulls_get_diff = (\<lambda>cs. Some ''diff --git a/src/limit.ts b/src/limit.ts''),
      repos_compareCommits = (\<lambda>cs. Some ''diff --git a/src/limit.ts b/src/limit.ts''),
      pulls_listReviewComments = (\<lambda>cs. Some []),
      chat_completions_create = (\<lambda>cs. CompletionContent
         (Some ''{"reviews":[{"lineNumber":"42","reviewComment":"avoid magic number"}]}'')),
      pulls_createReviewComment = (\<lambda>cs. True),
      pulls_createReview = (\<lambda>cs. True)\<rparr>\<close>

definition sample_item :: ReviewItem where
  "sample_item = \<lparr>lineNumber = ''42'', reviewComment = ''avoid magic number'', optimizedCode = ''const LIMIT = 42;''\<rparr>"

definition stray_item :: ReviewItem where
  "stray_item = \<lparr>lineNumber = ''99'', reviewComment = ''unused variable'', optimizedCode = ''undefined''\<rparr>"

definition empty_world :: world where
  "empty_world = \<lparr>calls = [], console = []\<rparr>"

definition sample_prDetails :: PRDetails where
  "sample_prDetails = \<lparr>owner = ''acme'', repo = ''shop'', pull_number = 7,
     title = ''Raise the limit'', description = []\<rparr>"

definition throwing_env :: env where
  "throwing_env = sample_env\<lparr>chat_completions_create := (\<lambda>cs. CompletionThrows)\<rparr>"

definition fenced_env :: env where
  "fenced_env = sample_env\<lparr>chat_completions_create := (\<lambda>cs. CompletionContent (Some ''```json{}```''))\<rparr>"

definition existing_X :: ExistingComment where
  "existing_X = \<lparr>existing_path = ''a.ts'', existing_line = Some 10, existing_body = ''X''\<rparr>"

definition ledger_42 :: "ExistingComment list" where
  "ledger_42 = [\<lparr>existing_path = ''src/limit.ts'', existing_line = Some 42,
     existing_body = ''avoid magic number'' @ [CHR 0x0A]\<rparr>]"

definition flaky_env :: env where
  "flaky_env = sample_env\<lparr>pulls_createReviewComment := (\<lambda>cs. length cs \<noteq> 1)\<rparr>"

definition three_comments :: "Comment list" where
  "three_comments =
     [\<lparr>body = ''avoid magic number'', path = ''src/limit.ts'', line = 42\<rparr>,
      \<lparr>body = ''   '', path = ''src/limit.ts'', line = 41\<rparr>,
      \<lparr>body = ''rename'', path = ''src/limit.ts'', line = 0\<rparr>,
      \<lparr>body = ''rename'', path = [], line = 40\<rparr>,
      \<lparr>body = ''use const'', path = ''src/limit.ts'', line = 41\<rparr>]"

definition deleted_file :: File where
  "deleted_file = \<lparr>to = Some ''/dev/null'',
     chunks = [\<lparr>content = ''@@ -1,1 +0,0 @@'', changes = [DeleteChange ''-old'' 1]\<rparr>]\<rparr>"

definition deleting_env :: env where
  "deleting_env = sample_env\<lparr>parseDiff := (\<lambda>diff. [deleted_file])\<rparr>"

definition sample_push :: Event where
  "sample_push = \<lparr>action = ''synchronize'', repository_owner_login = ''acme'',
     repository_name = ''shop'', number = 7, before = ''aaa111'', after = ''bbb222'',
     pull_request_head_sha = ''bbb222''\<rparr>"


section \<open>Comment Mapper: properties\<close>


lemma matches_iff:
  "matches num c \<longleftrightarrow> (\<exists>n. num = Some n \<and> (prop_ln c = Some n \<or> prop_ln2 c = Some n))"
  by (cases c; cases num; simp add: matches_def)

lemma matches_commentLine: "matches (Some n) c \<Longrightarrow> commentLine c = n"
  by (cases c) (auto simp: matches_def commentLine_def split: if_splits)

lemma find_Some_matches: "find P xs = Some x \<Longrightarrow> P x \<and> x \<in> set xs"
  by (induction xs) (auto split: if_splits)

lemma createComment_fst:
  "fst (createComment e file chunk rs) = concat (map (\<lambda>r. fst (createComment_item e file chunk r)) rs)"
  by (induction rs) simp_all

lemma createComment_snd:
  "snd (createComment e file chunk rs) = concat (map (\<lambda>r. snd (createComment_item e file chunk r)) rs)"
  by (induction rs) simp_all

lemma createComment_old_fst:
  "fst (createComment_old e file chunk rs) = concat (map (\<lambda>r. fst (createComment_item_old e file chunk r)) rs)"
  by (induction rs) simp_all

lemma createComment_old_snd:
  "snd (createComment_old e file chunk rs) = concat (map (\<lambda>r. snd (createComment_item_old e file chunk r)) rs)"
  by (induction rs) simp_all

lemma item_match:
  assumes "to file = Some p" "p \<noteq> []" "Number e (lineNumber r) = Some n"
    and "\<exists>c \<in> set (changes chunk). prop_ln c = Some n \<or> prop_ln2 c = Some n"
  shows "createComment_item e file chunk r = ([\<lparr>body = reviewComment r, path = p, line = n\<rparr>], [])"
    and "createComment_item_old e file chunk r = ([\<lparr>body = body_old e r, path = p, line = n\<rparr>], [])"
    and "\<exists>c. find (matches (Some n)) (changes chunk) = Some c \<and> commentLine c = n"
proof -
  from assms(4) have "\<exists>c \<in> set (changes chunk). matches (Some n) c"
    by (auto simp: matches_iff)
  then obtain c where c: "find (matches (Some n)) (changes chunk) = Some c"
    by (cases "find (matches (Some n)) (changes chunk)") (auto simp: find_None_iff)
  then have m: "matches (Some n) c" by (auto dest: find_Some_matches)
  then have l: "commentLine c = n" by (rule matches_commentLine)
  show "createComment_item e file chunk r = ([\<lparr>body = reviewComment r, path = p, line = n\<rparr>], [])"
    using assms(1-3) c l by (simp add: createComment_item_def)
  show "createComment_item_old e file chunk r = ([\<lparr>body = body_old e r, path = p, line = n\<rparr>], [])"
    using assms(1-3) c l by (simp add: createComment_item_old_def)
  show "\<exists>c. find (matches (Some n)) (changes chunk) = Some c \<and> commentLine c = n"
    using c l by blast
qed

lemma item_no_match:
  assumes "to file = Some p" "p \<noteq> []"
    and "\<not> (\<exists>c \<in> set (changes chunk). matches (Number e (lineNumber r)) c)"
  shows "createComment_item e file chunk r = ([], [ConsoleError (not_found_message (lineNumber r) p)])"
    and "createComment_item_old e file chunk r = ([], [ConsoleError (not_found_message (lineNumber r) p)])"
  using assms by (auto simp: createComment_item_def createComment_item_old_def find_None_iff split: option.splits)

lemma item_emitted:
  assumes "c \<in> set (fst (createComment_item e file chunk r))"
  shows "\<exists>ch \<in> set (changes chunk). \<exists>n. Number e (lineNumber r) = Some n \<and>
           (prop_ln ch = Some n \<or> prop_ln2 ch = Some n) \<and> line c = n \<and>
           body c = reviewComment r \<and> to file = Some (path c) \<and> path c \<noteq> []"
proof -
  from assms obtain p ch where p: "to file = Some p" "p \<noteq> []"
    and f: "find (matches (Number e (lineNumber r))) (changes chunk) = Some ch"
    and c: "c = \<lparr>body = reviewComment r, path = p, line = commentLine ch\<rparr>"
    by (auto simp: createComment_item_def split: option.splits if_splits)
  from f have m: "matches (Number e (lineNumber r)) ch" and i: "ch \<in> set (changes chunk)"
    by (auto dest: find_Some_matches)
  from m obtain n where n: "Number e (lineNumber r) = Some n" "prop_ln ch = Some n \<or> prop_ln2 ch = Some n"
    by (auto simp: matches_iff)
  with m have "commentLine ch = n" by (simp add: matches_commentLine)
  with p c i n show ?thesis by auto
qed

lemma matches_sides:
  "matches (Some n) c \<longleftrightarrow> new_side c = Some n \<or> (is_deletion c \<and> old_side c = Some n)"
  by (cases c) (auto simp: matches_def)

lemma new_side_matches: "new_side c = Some n \<Longrightarrow> prop_ln c = Some n \<or> prop_ln2 c = Some n"
  by (cases c) auto

lemma new_side_commentLine: "\<not> is_deletion c \<Longrightarrow> new_side c = Some (commentLine c)"
  by (cases c) (auto simp: commentLine_def)

lemma no_path_item:
  assumes "to file = None \<or> to file = Some []"
  shows "createComment_item e file chunk r = ([], [])"
    and "createComment_item_old e file chunk r = ([], [])"
  using assms by (auto simp: createComment_item_def createComment_item_old_def)

lemma no_path_createComment:
  assumes "to file = None \<or> to file = Some []"
  shows "createComment e file chunk rs = ([], [])"
    and "createComment_old e file chunk rs = ([], [])"
  by (induction rs) (simp_all add: no_path_item [OF assms])

text \<open>
  C1 (as amended). For a file with a non-empty target path, an item whose claimed number
  \<open>n\<close> is the new-side line number of a change of the chunk (the \<open>ln\<close> of an added line, the
  \<open>ln2\<close> of a context line) yields exactly one comment, on that path and with line \<open>n\<close>, in
  both variants, alone or among other items. An item whose number is no new-side number
  of a change and not the number of a deleted line, so one that equals at most old-side
  numbers (\<open>ln1\<close>) of context lines, yields no comment. The line that is taken from an
  added or a context line is its new-side number: the fallback 0 is not used for it.
\<close>

theorem createComment_anchors_new_side_line:
  assumes "to file = Some p" and "p \<noteq> []"
    and "Number e (lineNumber r) = Some n"
  shows "((\<exists>c \<in> set (changes chunk). new_side c = Some n) \<longrightarrow>
            createComment e file chunk [r] = ([\<lparr>body = reviewComment r, path = p, line = n\<rparr>], []) \<and>
            createComment_old e file chunk [r] = ([\<lparr>body = body_old e r, path = p, line = n\<rparr>], []) \<and>
            (r \<in> set rs \<longrightarrow>
               \<lparr>body = reviewComment r, path = p, line = n\<rparr> \<in> set (fst (createComment e file chunk rs)) \<and>
               \<lparr>body = body_old e r, path = p, line = n\<rparr> \<in> set (fst (createComment_old e file chunk rs)))) \<and>
         ((\<forall>c \<in> set (changes chunk). new_side c \<noteq> Some n \<and> (is_deletion c \<longrightarrow> old_side c \<noteq> Some n)) \<longrightarrow>
            fst (createComment e file chunk [r]) = [] \<and>
            fst (createComment_old e file chunk [r]) = []) \<and>
         (\<not> is_deletion c' \<longrightarrow> new_side c' = Some (commentLine c'))"
proof (intro conjI impI)
  assume "\<exists>c \<in> set (changes chunk). new_side c = Some n"
  then have x: "\<exists>c \<in> set (changes chunk). prop_ln c = Some n \<or> prop_ln2 c = Some n"
    by (auto dest: new_side_matches)
  note m = item_match [OF assms x]
  show "createComment e file chunk [r] = ([\<lparr>body = reviewComment r, path = p, line = n\<rparr>], [])"
    using m(1) by simp
  show "createComment_old e file chunk [r] = ([\<lparr>body = body_old e r, path = p, line = n\<rparr>], [])"
    using m(2) by simp
  { assume "r \<in> set rs"
    then show "\<lparr>body = reviewComment r, path = p, line = n\<rparr> \<in> set (fst (createComment e file chunk rs))"
      unfolding createComment_fst using m(1) by force }
  { assume "r \<in> set rs"
    then show "\<lparr>body = body_old e r, path = p, line = n\<rparr> \<in> set (fst (createComment_old e file chunk rs))"
      unfolding createComment_old_fst using m(2) by force }
next
  assume "\<forall>c \<in> set (changes chunk). new_side c \<noteq> Some n \<and> (is_deletion c \<longrightarrow> old_side c \<noteq> Some n)"
  then have "\<not> (\<exists>c \<in> set (changes chunk). matches (Some n) c)"
    by (auto simp: matches_sides)
  with assms(3) have nm: "\<not> (\<exists>c \<in> set (changes chunk). matches (Number e (lineNumber r)) c)"
    by simp
  note i = item_no_match [OF assms(1,2) nm]
  show "fst (createComment e file chunk [r]) = []" using i(1) by simp
  show "fst (createComment_old e file chunk [r]) = []" using i(2) by simp
next
  assume "\<not> is_deletion c'"
  then show "new_side c' = Some (commentLine c')" by (rule new_side_commentLine)
qed

theorem createComment_anchors_new_side_line_witness:
  "createComment sample_env sample_file sample_chunk [sample_item]
     = ([\<lparr>body = ''avoid magic number'', path = ''src/limit.ts'', line = 42\<rparr>], []) \<and>
   \<lparr>body = ''avoid magic number'', path = ''src/limit.ts'', line = 42\<rparr>
     \<in> set (fst (createComment sample_env sample_file sample_chunk [stray_item, sample_item])) \<and>
   new_side (AddChange ''+const limit = 42;'' 42) = Some (commentLine (AddChange ''+const limit = 42;'' 42)) \<and>
   fst (createComment sample_env sample_file sample_chunk [stray_item]) = [] \<and>
   fst (createComment_old sample_env sample_file sample_chunk [stray_item]) = []"
proof -
  have 1: "to sample_file = Some ''src/limit.ts''" by (simp add: sample_file_def)
  have 2: "''src/limit.ts'' \<noteq> []" by simp
  have 3: "Number sample_env (lineNumber sample_item) = Some 42"
    by (simp add: sample_env_def sample_item_def Number_digits_def)
  have 4: "\<exists>c \<in> set (changes sample_chunk). new_side c = Some 42"
    by (simp add: sample_chunk_def)
  have 5: "sample_item \<in> set [stray_item, sample_item]" by simp
  have 6: "\<not> is_deletion (AddChange ''+const limit = 42;'' 42)" by simp
  have 7: "Number sample_env (lineNumber stray_item) = Some 99"
    by (simp add: sample_env_def stray_item_def Number_digits_def)
  have 8: "\<forall>c \<in> set (changes sample_chunk). new_side c \<noteq> Some 99 \<and> (is_deletion c \<longrightarrow> old_side c \<noteq> Some 99)"
    by (simp add: sample_chunk_def)
  note a = createComment_anchors_new_side_line [OF 1 2 3, of sample_chunk "[stray_item, sample_item]"
      "AddChange ''+const limit = 42;'' 42"]
  note b = createComment_anchors_new_side_line [OF 1 2 7, of sample_chunk "[]" "AddChange ''+const limit = 42;'' 42"]
  from a [THEN conjunct1, THEN mp, OF 4] 5
  have x: "createComment sample_env sample_file sample_chunk [sample_item]
             = ([\<lparr>body = reviewComment sample_item, path = ''src/limit.ts'', line = 42\<rparr>], []) \<and>
           \<lparr>body = reviewComment sample_item, path = ''src/limit.ts'', line = 42\<rparr>
             \<in> set (fst (createComment sample_env sample_file sample_chunk [stray_item, sample_item]))"
    by (elim conjE impE) (assumption, intro conjI, assumption+)
  from a [THEN conjunct2, THEN conjunct2, THEN mp, OF 6]
  have y: "new_side (AddChange ''+const limit = 42;'' 42) = Some (commentLine (AddChange ''+const limit = 42;'' 42))" .
  from b [THEN conjunct2, THEN conjunct1, THEN mp, OF 8]
  have z: "fst (createComment sample_env sample_file sample_chunk [stray_item]) = [] \<and>
           fst (createComment_old sample_env sample_file sample_chunk [stray_item]) = []" .
  have r: "reviewComment sample_item = ''avoid magic number''" by (simp add: sample_item_def)
  from x y z show ?thesis unfolding r by (intro conjI) (elim conjE, assumption)+
qed

text \<open>
  C1 as stated fails in three ways. The old-side number of a context line (\<open>ln1\<close>) is not
  looked at, so an item that claims it yields no comment. A deleted line has no new-side
  number, and an item that claims its number yields a comment with that old-side number
  as its line. And for a file without a target path an item that claims an added line
  yields no comment.
\<close>

theorem createComment_line_counterexample:
  "old_side (NormalChange '' const a = 1;'' 39 40) = Some 39 \<and>
   Number sample_env ''39'' = Some 39 \<and>
   fst (createComment sample_env \<lparr>to = Some ''src/limit.ts'', chunks = []\<rparr>
          \<lparr>content = ''@@ -39,1 +40,1 @@'', changes = [NormalChange '' const a = 1;'' 39 40]\<rparr>
          [\<lparr>lineNumber = ''39'', reviewComment = ''rename'', optimizedCode = []\<rparr>]) = [] \<and>
   fst (createComment_old sample_env \<lparr>to = Some ''src/limit.ts'', chunks = []\<rparr>
          \<lparr>content = ''@@ -39,1 +40,1 @@'', changes = [NormalChange '' const a = 1;'' 39 40]\<rparr>
          [\<lparr>lineNumber = ''39'', reviewComment = ''rename'', optimizedCode = []\<rparr>]) = [] \<and>
   old_side (DeleteChange ''-const b = 2;'' 41) = Some 41 \<and>
   new_side (DeleteChange ''-const b = 2;'' 41) = None \<and>
   Number sample_env ''41'' = Some 41 \<and>
   fst (createComment sample_env \<lparr>to = Some ''src/limit.ts'', chunks = []\<rparr>
          \<lparr>content = ''@@ -41,1 +40,0 @@'', changes = [DeleteChange ''-const b = 2;'' 41]\<rparr>
          [\<lparr>lineNumber = ''41'', reviewComment = ''rename'', optimizedCode = []\<rparr>])
     = [\<lparr>body = ''rename'', path = ''src/limit.ts'', line = 41\<rparr>] \<and>
   new_side (AddChange ''+x'' 1) = Some 1 \<and>
   Number sample_env ''1'' = Some 1 \<and>
   createComment sample_env \<lparr>to = None, chunks = []\<rparr>
     \<lparr>content = ''@@ -0,0 +1,1 @@'', changes = [AddChange ''+x'' 1]\<rparr>
     [\<lparr>lineNumber = ''1'', reviewComment = ''rename'', optimizedCode = []\<rparr>] = ([], []) \<and>
   createComment_old sample_env \<lparr>to = None, chunks = []\<rparr>
     \<lparr>content = ''@@ -0,0 +1,1 @@'', changes = [AddChange ''+x'' 1]\<rparr>
     [\<lparr>lineNumber = ''1'', reviewComment = ''rename'', optimizedCode = []\<rparr>] = ([], [])"
  by (simp add: sample_env_def Number_digits_def createComment_item_def createComment_item_old_def
      matches_def commentLine_def)

lemma item_emitted_old:
  assumes "c \<in> set (fst (createComment_item_old e file chunk r))"
  shows "\<exists>ch \<in> set (changes chunk). \<exists>n. Number e (lineNumber r) = Some n \<and>
           (prop_ln ch = Some n \<or> prop_ln2 ch = Some n) \<and> line c = n \<and>
           body c = body_old e r \<and> to file = Some (path c) \<and> path c \<noteq> []"
proof -
  from assms obtain p ch where p: "to file = Some p" "p \<noteq> []"
    and f: "find (matches (Number e (lineNumber r))) (changes chunk) = Some ch"
    and c: "c = \<lparr>body = body_old e r, path = p, line = commentLine ch\<rparr>"
    by (auto simp: createComment_item_old_def split: option.splits if_splits)
  from f have m: "matches (Number e (lineNumber r)) ch" and i: "ch \<in> set (changes chunk)"
    by (auto dest: find_Some_matches)
  from m obtain n where n: "Number e (lineNumber r) = Some n" "prop_ln ch = Some n \<or> prop_ln2 ch = Some n"
    by (auto simp: matches_iff)
  with m have "commentLine ch = n" by (simp add: matches_commentLine)
  with p c i n show ?thesis by auto
qed

lemma sublist_not_found_message:
  "sublist ln (not_found_message ln p)" "sublist p (not_found_message ln p)"
  unfolding not_found_message_def
  by (metis sublist_appendI append.assoc, metis sublist_appendI append.assoc append_Nil2)

text \<open>
  C2 (as amended). A comment that \<open>createComment\<close> emits comes from an item whose claimed
  number is the \<open>ln\<close> or \<open>ln2\<close> of a change of the chunk, and carries that number as its
  line and the file's target path as its path, in both variants. When the file has a
  non-empty target path and no change of the chunk matches, the item yields no comment and
  one error line, which names the claimed line number and the path. When the target path
  of the file is missing or empty, every item is dropped and nothing is printed.
\<close>

theorem createComment_never_fabricates:
  "(\<forall>c \<in> set (fst (createComment e file chunk rs)).
      \<exists>r \<in> set rs. \<exists>ch \<in> set (changes chunk). \<exists>n.
        Number e (lineNumber r) = Some n \<and> (prop_ln ch = Some n \<or> prop_ln2 ch = Some n) \<and>
        line c = n \<and> body c = reviewComment r \<and> to file = Some (path c)) \<and>
   (\<forall>c \<in> set (fst (createComment_old e file chunk rs)).
      \<exists>r \<in> set rs. \<exists>ch \<in> set (changes chunk). \<exists>n.
        Number e (lineNumber r) = Some n \<and> (prop_ln ch = Some n \<or> prop_ln2 ch = Some n) \<and>
        line c = n \<and> body c = body_old e r \<and> to file = Some (path c)) \<and>
   (to file = Some p \<and> p \<noteq> [] \<and>
    \<not> (\<exists>ch \<in> set (changes chunk). \<exists>n. Number e (lineNumber r) = Some n \<and>
          (prop_ln ch = Some n \<or> prop_ln2 ch = Some n)) \<longrightarrow>
      createComment e file chunk [r] = ([], [ConsoleError (not_found_message (lineNumber r) p)]) \<and>
      createComment_old e file chunk [r] = ([], [ConsoleError (not_found_message (lineNumber r) p)]) \<and>
      sublist p (not_found_message (lineNumber r) p) \<and>
      sublist (lineNumber r) (not_found_message (lineNumber r) p) \<and>
      (r \<in> set rs \<longrightarrow>
         ConsoleError (not_found_message (lineNumber r) p) \<in> set (snd (createComment e file chunk rs)) \<and>
         ConsoleError (not_found_message (lineNumber r) p) \<in> set (snd (createComment_old e file chunk rs)))) \<and>
   (to file = None \<or> to file = Some [] \<longrightarrow>
      createComment e file chunk rs = ([], []) \<and> createComment_old e file chunk rs = ([], []))"
proof (intro conjI ballI impI)
  fix c assume "c \<in> set (fst (createComment e file chunk rs))"
  then obtain r where r: "r \<in> set rs" "c \<in> set (fst (createComment_item e file chunk r))"
    unfolding createComment_fst by auto
  from item_emitted [OF r(2)] r(1)
  show "\<exists>r \<in> set rs. \<exists>ch \<in> set (changes chunk). \<exists>n.
        Number e (lineNumber r) = Some n \<and> (prop_ln ch = Some n \<or> prop_ln2 ch = Some n) \<and>
        line c = n \<and> body c = reviewComment r \<and> to file = Some (path c)"
    by blast
next
  fix c assume "c \<in> set (fst (createComment_old e file chunk rs))"
  then obtain r where r: "r \<in> set rs" "c \<in> set (fst (createComment_item_old e file chunk r))"
    unfolding createComment_old_fst by auto
  from item_emitted_old [OF r(2)] r(1)
  show "\<exists>r \<in> set rs. \<exists>ch \<in> set (changes chunk). \<exists>n.
        Number e (lineNumber r) = Some n \<and> (prop_ln ch = Some n \<or> prop_ln2 ch = Some n) \<and>
        line c = n \<and> body c = body_old e r \<and> to file = Some (path c)"
    by blast
next
  assume a: "to file = Some p \<and> p \<noteq> [] \<and>
    \<not> (\<exists>ch \<in> set (changes chunk). \<exists>n. Number e (lineNumber r) = Some n \<and>
          (prop_ln ch = Some n \<or> prop_ln2 ch = Some n))"
  then have nm: "\<not> (\<exists>c \<in> set (changes chunk). matches (Number e (lineNumber r)) c)"
    by (auto simp: matches_iff)
  from a have t: "to file = Some p" and pn: "p \<noteq> []" by auto
  note n = item_no_match [OF t pn nm]
  from a n show "createComment e file chunk [r] = ([], [ConsoleError (not_found_message (lineNumber r) p)])"
    by simp
  from a n show "createComment_old e file chunk [r] = ([], [ConsoleError (not_found_message (lineNumber r) p)])"
    by simp
  show "sublist p (not_found_message (lineNumber r) p)"
    and "sublist (lineNumber r) (not_found_message (lineNumber r) p)"
    by (rule sublist_not_found_message)+
  { assume "r \<in> set rs"
    with a n show "ConsoleError (not_found_message (lineNumber r) p) \<in> set (snd (createComment e file chunk rs))"
      unfolding createComment_snd by force }
  { assume "r \<in> set rs"
    with a n show "ConsoleError (not_found_message (lineNumber r) p) \<in> set (snd (createComment_old e file chunk rs))"
      unfolding createComment_old_snd by force }
next
  assume "to file = None \<or> to file = Some []"
  then show "createComment e file chunk rs = ([], [])" by (rule no_path_createComment)
next
  assume "to file = None \<or> to file = Some []"
  then show "createComment_old e file chunk rs = ([], [])" by (rule no_path_createComment)
qed

theorem createComment_never_fabricates_witness:
  "createComment sample_env sample_file sample_chunk [stray_item]
     = ([], [ConsoleError ''Line number 99 not found in the diff for file src/limit.ts'']) \<and>
   fst (createComment sample_env sample_file sample_chunk [sample_item, stray_item])
     = [\<lparr>body = ''avoid magic number'', path = ''src/limit.ts'', line = 42\<rparr>] \<and>
   (\<exists>ch \<in> set (changes sample_chunk). prop_ln ch = Some 42 \<or> prop_ln2 ch = Some 42) \<and>
   createComment sample_env \<lparr>to = Some [], chunks = [sample_chunk]\<rparr> sample_chunk [sample_item, stray_item]
     = ([], []) \<and>
   createComment_old sample_env \<lparr>to = Some [], chunks = [sample_chunk]\<rparr> sample_chunk [sample_item, stray_item]
     = ([], [])"
proof -
  have 1: "to sample_file = Some ''src/limit.ts'' \<and> ''src/limit.ts'' \<noteq> [] \<and>
    \<not> (\<exists>ch \<in> set (changes sample_chunk). \<exists>n. Number sample_env (lineNumber stray_item) = Some n \<and>
          (prop_ln ch = Some n \<or> prop_ln2 ch = Some n))"
    by (simp add: sample_file_def sample_chunk_def sample_env_def stray_item_def Number_digits_def)
  have 2: "fst (createComment sample_env sample_file sample_chunk [sample_item, stray_item])
     = [\<lparr>body = ''avoid magic number'', path = ''src/limit.ts'', line = 42\<rparr>]"
    by (simp add: sample_file_def sample_chunk_def sample_env_def stray_item_def sample_item_def Number_digits_def
        createComment_item_def matches_def commentLine_def)
  have 3: "to \<lparr>to = Some [], chunks = [sample_chunk]\<rparr> = None \<or>
           to \<lparr>to = Some [], chunks = [sample_chunk]\<rparr> = Some []"
    by simp
  from createComment_never_fabricates [of sample_env sample_file sample_chunk
      "[sample_item, stray_item]" "''src/limit.ts''" stray_item] 1 2
  have a: "createComment sample_env sample_file sample_chunk [stray_item]
     = ([], [ConsoleError ''Line number 99 not found in the diff for file src/limit.ts'']) \<and>
   fst (createComment sample_env sample_file sample_chunk [sample_item, stray_item])
     = [\<lparr>body = ''avoid magic number'', path = ''src/limit.ts'', line = 42\<rparr>] \<and>
   (\<exists>ch \<in> set (changes sample_chunk). prop_ln ch = Some 42 \<or> prop_ln2 ch = Some 42)"
    by (simp add: not_found_message_def stray_item_def)
  from createComment_never_fabricates [of sample_env "\<lparr>to = Some [], chunks = [sample_chunk]\<rparr>" sample_chunk
      "[sample_item, stray_item]" "[]" stray_item,
      THEN conjunct2, THEN conjunct2, THEN conjunct2, THEN mp, OF 3]
  have b: "createComment sample_env \<lparr>to = Some [], chunks = [sample_chunk]\<rparr> sample_chunk [sample_item, stray_item]
     = ([], []) \<and>
   createComment_old sample_env \<lparr>to = Some [], chunks = [sample_chunk]\<rparr> sample_chunk [sample_item, stray_item]
     = ([], [])" .
  from a b show ?thesis by (intro conjI) (elim conjE, assumption)+
qed

text \<open>
  C2 as stated fails on a file without a target path, missing or empty: the guard
  \<open>if (!file.to) return []\<close> comes first, so an item that matches nothing is dropped
  without any diagnostic.
\<close>

theorem createComment_silent_counterexample:
  "createComment sample_env \<lparr>to = None, chunks = []\<rparr> \<lparr>content = ''@@ -1,1 +1,1 @@'', changes = [AddChange ''+x'' 1]\<rparr>
     [stray_item] = ([], []) \<and>
   createComment_old sample_env \<lparr>to = None, chunks = []\<rparr> \<lparr>content = ''@@ -1,1 +1,1 @@'', changes = [AddChange ''+x'' 1]\<rparr>
     [stray_item] = ([], []) \<and>
   find (matches (Number sample_env (lineNumber stray_item))) [AddChange ''+x'' 1] = None \<and>
   createComment sample_env \<lparr>to = Some [], chunks = []\<rparr> \<lparr>content = ''@@ -1,1 +1,1 @@'', changes = [AddChange ''+x'' 1]\<rparr>
     [stray_item] = ([], []) \<and>
   createComment_old sample_env \<lparr>to = Some [], chunks = []\<rparr> \<lparr>content = ''@@ -1,1 +1,1 @@'', changes = [AddChange ''+x'' 1]\<rparr>
     [stray_item] = ([], [])"
  by (simp add: createComment_item_def createComment_item_old_def sample_env_def stray_item_def
      Number_digits_def matches_def)

section \<open>Review Client: properties\<close>

lemma after_first_Some:
  "after_first pat s = Some r \<Longrightarrow> \<exists>pre. s = pre @ pat @ r"
proof (induction s)
  case Nil
  then show ?case by (auto split: if_splits)
next
  case (Cons c cs)
  show ?case
  proof (cases "prefix pat (c # cs)")
    case True
    then obtain t where t: "c # cs = pat @ t" by (auto simp: prefix_def)
    from True Cons.prems have "r = drop (length pat) (c # cs)" by simp
    also have "\<dots> = t" unfolding t by simp
    finally show ?thesis using t by (metis append_Nil)
  next
    case False
    with Cons.prems have "after_first pat cs = Some r" by simp
    from Cons.IH [OF this] obtain pre where "cs = pre @ pat @ r" ..
    then have "c # cs = (c # pre) @ pat @ r" by simp
    then show ?thesis by blast
  qed
qed

lemma after_first_suffix:
  "\<exists>r. after_first pat (pre @ pat @ x) = Some r \<and> suffix x r"
proof (induction pre)
  case Nil
  show ?case
  proof (cases "pat @ x")
    case Nil
    then show ?thesis by simp
  next
    case (Cons c cs)
    have "prefix pat (c # cs)" unfolding Cons [symmetric] by simp
    then have "after_first pat (c # cs) = Some (drop (length pat) (c # cs))" by simp
    then have "after_first pat (pat @ x) = Some x" unfolding Cons [symmetric] by simp
    then show ?thesis by simp
  qed
next
  case (Cons c pre)
  show ?case
  proof (cases "prefix pat (c # pre @ pat @ x)")
    case True
    then have "after_first pat ((c # pre) @ pat @ x) = Some (drop (length pat) ((c # pre) @ pat @ x))"
      by simp
    moreover have "suffix x (drop (length pat) ((c # pre) @ pat @ x))"
    proof -
      have "length pat \<le> length ((c # pre) @ pat)" by simp
      then have "drop (length pat) (((c # pre) @ pat) @ x) = drop (length pat) ((c # pre) @ pat) @ x"
        by (simp only: drop_append diff_is_0_eq' drop_0)
      then show ?thesis by (metis append.assoc suffixI)
    qed
    ultimately show ?thesis by blast
  next
    case False
    then show ?thesis using Cons.IH by simp
  qed
qed

lemma after_first_None_iff:
  "after_first pat s = None \<longleftrightarrow> \<not> (\<exists>pre post. s = pre @ pat @ post)"
proof
  assume n: "after_first pat s = None"
  show "\<not> (\<exists>pre post. s = pre @ pat @ post)"
  proof
    assume "\<exists>pre post. s = pre @ pat @ post"
    then obtain pre post where "s = pre @ pat @ post" by blast
    with after_first_suffix [of pat pre post] n show False by auto
  qed
next
  assume a: "\<not> (\<exists>pre post. s = pre @ pat @ post)"
  show "after_first pat s = None"
  proof (rule ccontr)
    assume "after_first pat s \<noteq> None"
    then obtain r where "after_first pat s = Some r" by auto
    from after_first_Some [OF this] a show False by blast
  qed
qed

lemma before_last_Some:
  assumes "before_last pat s = Some g"
  shows "\<exists>post. s = g @ pat @ post"
proof -
  from assms obtain r where r: "after_first (rev pat) (rev s) = Some r" "g = rev r"
    by (auto simp: before_last_def)
  from after_first_Some [OF r(1)] obtain pre where "rev s = pre @ rev pat @ r" ..
  then have "rev (rev s) = rev (pre @ rev pat @ r)" by simp
  then have "s = rev r @ pat @ rev pre" by simp
  with r(2) show ?thesis by blast
qed

lemma before_last_prefix:
  "\<exists>g. before_last pat (x @ pat @ post) = Some g \<and> prefix x g"
proof -
  have "rev (x @ pat @ post) = rev post @ rev pat @ rev x" by simp
  with after_first_suffix [of "rev pat" "rev post" "rev x"]
  obtain r where r: "after_first (rev pat) (rev (x @ pat @ post)) = Some r" "suffix (rev x) r"
    by auto
  from r(2) obtain u where "r = u @ rev x" by (auto simp: suffix_def)
  then have "rev r = x @ rev u" by simp
  then have "prefix x (rev r)" by simp
  with r(1) show ?thesis by (simp add: before_last_def)
qed

lemma capture_Some:
  assumes "(case after_first a res of None \<Rightarrow> None | Some rest \<Rightarrow> before_last b rest) = Some g"
  shows "\<exists>pre post. res = pre @ a @ g @ b @ post"
proof -
  from assms obtain rest where a: "after_first a res = Some rest"
    and b: "before_last b rest = Some g"
    by (auto split: option.splits)
  from after_first_Some [OF a] obtain pre where "res = pre @ a @ rest" ..
  moreover from before_last_Some [OF b] obtain post where "rest = g @ b @ post" ..
  ultimately show ?thesis by blast
qed

lemma capture_None_iff:
  "(case after_first a res of None \<Rightarrow> None | Some rest \<Rightarrow> before_last b rest) = None
     \<longleftrightarrow> \<not> (\<exists>pre g post. res = pre @ a @ g @ b @ post)"
proof
  assume n: "(case after_first a res of None \<Rightarrow> None | Some rest \<Rightarrow> before_last b rest) = None"
  show "\<not> (\<exists>pre g post. res = pre @ a @ g @ b @ post)"
  proof
    assume "\<exists>pre g post. res = pre @ a @ g @ b @ post"
    then obtain pre g post where res: "res = pre @ a @ (g @ b @ post)" by auto
    from after_first_suffix [of a pre "g @ b @ post"] res
    obtain rest where rest: "after_first a res = Some rest" "suffix (g @ b @ post) rest"
      by auto
    from rest(2) obtain u where "rest = (u @ g) @ b @ post" by (auto simp: suffix_def)
    with before_last_prefix [of b "u @ g" post]
    obtain g' where "before_last b rest = Some g'" by auto
    with rest(1) n show False by simp
  qed
next
  assume a: "\<not> (\<exists>pre g post. res = pre @ a @ g @ b @ post)"
  show "(case after_first a res of None \<Rightarrow> None | Some rest \<Rightarrow> before_last b rest) = None"
  proof (rule ccontr)
    assume "(case after_first a res of None \<Rightarrow> None | Some rest \<Rightarrow> before_last b rest) \<noteq> None"
    then obtain g where "(case after_first a res of None \<Rightarrow> None | Some rest \<Rightarrow> before_last b rest) = Some g"
      by auto
    from capture_Some [OF this] a show False by blast
  qed
qed

lemma match_json_block_Some:
  "match_json_block res = Some g \<Longrightarrow> \<exists>pre post. res = pre @ ''```json'' @ g @ ''```'' @ post"
  unfolding match_json_block_def by (rule capture_Some)

lemma match_json_block_None_iff:
  "match_json_block res = None \<longleftrightarrow> \<not> (\<exists>pre g post. res = pre @ ''```json'' @ g @ ''```'' @ post)"
  unfolding match_json_block_def by (rule capture_None_iff)


text \<open>
  The group is the one of the regular expression: the match begins at the leftmost
  \<open>```json\<close> that a fence follows and ends at the last fence.
\<close>

lemma capture_leftmost_greedy:
  assumes "(case after_first a res of None \<Rightarrow> None | Some rest \<Rightarrow> before_last b rest) = Some g"
  shows "\<exists>pre post. res = pre @ a @ g @ b @ post \<and>
           (\<forall>pre' g' post'. res = pre' @ a @ g' @ b @ post' \<longrightarrow>
              length pre \<le> length pre' \<and> length (pre' @ a @ g') \<le> length (pre @ a @ g))"
proof -
  from assms obtain rest where a: "after_first a res = Some rest"
    and b: "before_last b rest = Some g"
    by (auto split: option.splits)
  from after_first_Some [OF a] obtain pre where pre: "res = pre @ a @ rest" ..
  from before_last_Some [OF b] obtain post where post: "rest = g @ b @ post" ..
  have "length pre \<le> length pre' \<and> length (pre' @ a @ g') \<le> length (pre @ a @ g)"
    if r: "res = pre' @ a @ g' @ b @ post'" for pre' g' post'
  proof -
    from after_first_suffix [of a pre' "g' @ b @ post'"] a
    have "suffix (g' @ b @ post') rest" unfolding r by simp
    then obtain u where u: "rest = u @ g' @ b @ post'" by (auto simp: suffix_def)
    from r have "length res = length pre' + length a + length g' + length b + length post'"
      by simp
    moreover from pre u
    have "length res = length pre + length a + length u + length g' + length b + length post'"
      by simp
    ultimately have l: "length pre' = length pre + length u" by simp
    from u have "rest = (u @ g') @ b @ post'" by simp
    with before_last_prefix [of b "u @ g'" post'] b have "prefix (u @ g') g" by simp
    then have "length (u @ g') \<le> length g" by (rule prefix_length_le)
    with l show ?thesis by simp
  qed
  with pre post show ?thesis by blast
qed

lemma match_json_block_leftmost_greedy:
  "match_json_block res = Some g \<Longrightarrow>
     \<exists>pre post. res = pre @ ''```json'' @ g @ ''```'' @ post \<and>
       (\<forall>pre' g' post'. res = pre' @ ''```json'' @ g' @ ''```'' @ post' \<longrightarrow>
          length pre \<le> length pre' \<and>
          length (pre' @ ''```json'' @ g') \<le> length (pre @ ''```json'' @ g))"
  unfolding match_json_block_def by (rule capture_leftmost_greedy)

lemma analyze_chunks_falsy:
  assumes "\<not> truthy (fst (getAIResponse e (createPrompt e file chunk prDetails) w))"
  shows "analyze_chunks e file prDetails ex (chunk # rest) (comments, w) =
         analyze_chunks e file prDetails ex rest
           (comments, snd (getAIResponse e (createPrompt e file chunk prDetails) w))"
  using assms by (simp add: Let_def split_beta)

lemma analyze_chunks_old_falsy:
  assumes "\<not> truthy (fst (getAIResponse_old e (createPrompt_old e file chunk prDetails) w))"
  shows "analyze_chunks_old e file prDetails (chunk # rest) (comments, w) =
         analyze_chunks_old e file prDetails rest
           (comments, snd (getAIResponse_old e (createPrompt_old e file chunk prDetails) w))"
  using assms by (simp add: Let_def split_beta)

text \<open>
  C3 (as amended). In \<open>src/main.ts\<close> the payload is the group of the first block fenced
  with \<open>```json\<close> when the answer has one, and the whole trimmed answer otherwise; the older
  variant takes the group of such a block only and returns \<open>null\<close> when there is none.
  In both, a failed request, an empty payload and a payload on which
  \<open>JSON.parse(...).reviews\<close> throws give \<open>null\<close>, and a payload without the key gives
  \<open>undefined\<close>; on such a value the loop over the chunks leaves the comment list as it is
  and goes on with the remaining chunks.
\<close>

theorem getAIResponse_payload_and_failures:
  "(chat_completions_create e (calls (send (ChatCompletionsCreate prompt) w)) = CompletionThrows \<longrightarrow>
      fst (getAIResponse e prompt w) = Null \<and> fst (getAIResponse_old e prompt w) = Null) \<and>
   (chat_completions_create e (calls (send (ChatCompletionsCreate prompt) w)) = CompletionContent c \<longrightarrow>
      (\<forall>g. match_json_block (response_text c) = Some g \<longrightarrow>
         getAIResponse e prompt w = parse_json_content e g (send (ChatCompletionsCreate prompt) w) \<and>
         getAIResponse_old e prompt w = parse_json_content e g (send (ChatCompletionsCreate prompt) w)) \<and>
      (match_json_block (response_text c) = None \<longrightarrow>
         getAIResponse e prompt w =
           parse_json_content e (response_text c) (send (ChatCompletionsCreate prompt) w) \<and>
         fst (getAIResponse_old e prompt w) = Null)) \<and>
   (match_json_block res = None \<longleftrightarrow>
      \<not> (\<exists>pre g post. res = pre @ ''```json'' @ g @ ''```'' @ post)) \<and>
   (match_json_block res = Some g' \<longrightarrow> (\<exists>pre post. res = pre @ ''```json'' @ g' @ ''```'' @ post)) \<and>
   fst (parse_json_content e [] w') = Null \<and>
   (JSON_parse_reviews e j = ParseThrows \<longrightarrow> fst (parse_json_content e j w') = Null) \<and>
   (j \<noteq> [] \<and> JSON_parse_reviews e j = Parsed r \<longrightarrow> parse_json_content e j w' = (r, w')) \<and>
   \<not> truthy Null \<and> \<not> truthy Undefined \<and>
   (\<not> truthy (fst (getAIResponse e (createPrompt e file chunk prDetails) w)) \<longrightarrow>
      analyze_chunks e file prDetails ex (chunk # rest) (comments, w) =
      analyze_chunks e file prDetails ex rest
        (comments, snd (getAIResponse e (createPrompt e file chunk prDetails) w))) \<and>
   (\<not> truthy (fst (getAIResponse_old e (createPrompt_old e file chunk prDetails) w)) \<longrightarrow>
      analyze_chunks_old e file prDetails (chunk # rest) (comments, w) =
      analyze_chunks_old e file prDetails rest
        (comments, snd (getAIResponse_old e (createPrompt_old e file chunk prDetails) w)))"
proof -
  have 1: "chat_completions_create e (calls (send (ChatCompletionsCreate prompt) w)) = CompletionThrows \<longrightarrow>
      fst (getAIResponse e prompt w) = Null \<and> fst (getAIResponse_old e prompt w) = Null"
    by (simp add: getAIResponse_def getAIResponse_old_def Let_def)
  have 2: "chat_completions_create e (calls (send (ChatCompletionsCreate prompt) w)) = CompletionContent c \<longrightarrow>
      (\<forall>g. match_json_block (response_text c) = Some g \<longrightarrow>
         getAIResponse e prompt w = parse_json_content e g (send (ChatCompletionsCreate prompt) w) \<and>
         getAIResponse_old e prompt w = parse_json_content e g (send (ChatCompletionsCreate prompt) w)) \<and>
      (match_json_block (response_text c) = None \<longrightarrow>
         getAIResponse e prompt w =
           parse_json_content e (response_text c) (send (ChatCompletionsCreate prompt) w) \<and>
         fst (getAIResponse_old e prompt w) = Null)"
    by (simp add: getAIResponse_def getAIResponse_old_def Let_def)
  have 3: "fst (parse_json_content e [] w') = Null"
    by (simp add: parse_json_content_def)
  have 4: "JSON_parse_reviews e j = ParseThrows \<longrightarrow> fst (parse_json_content e j w') = Null"
    by (simp add: parse_json_content_def)
  have 5: "j \<noteq> [] \<and> JSON_parse_reviews e j = Parsed r \<longrightarrow> parse_json_content e j w' = (r, w')"
    by (simp add: parse_json_content_def)
  have 6: "match_json_block res = Some g' \<longrightarrow> (\<exists>pre post. res = pre @ ''```json'' @ g' @ ''```'' @ post)"
    using match_json_block_Some by blast
  note 7 = match_json_block_None_iff [of res]
  have 8: "\<not> truthy Null \<and> \<not> truthy Undefined" by simp
  from 1 2 3 4 5 6 7 8 analyze_chunks_falsy analyze_chunks_old_falsy show ?thesis
    by blast
qed

theorem getAIResponse_payload_and_failures_witness:
  "fst (getAIResponse throwing_env ''review this'' empty_world) = Null \<and>
   analyze_chunks throwing_env sample_file sample_prDetails [] (chunks sample_file) ([], empty_world)
     = (Inr [], snd (getAIResponse throwing_env
          (createPrompt throwing_env sample_file sample_chunk sample_prDetails) empty_world)) \<and>
   match_json_block ''```json{}```'' = Some ''{}'' \<and>
   getAIResponse fenced_env ''review this'' empty_world
     = (Undefined, send (ChatCompletionsCreate ''review this'') empty_world) \<and>
   getAIResponse_old fenced_env ''review this'' empty_world
     = (Undefined, send (ChatCompletionsCreate ''review this'') empty_world)"
proof -
  have t: "chat_completions_create throwing_env (calls (send (ChatCompletionsCreate p) empty_world))
             = CompletionThrows" for p
    by (simp add: throwing_env_def sample_env_def)
  have a: "fst (getAIResponse throwing_env p empty_world) = Null" for p
    using getAIResponse_payload_and_failures [where e = throwing_env and prompt = p and w = empty_world] t
    by simp
  have ch: "chunks sample_file = [sample_chunk]"
    by (simp add: sample_file_def sample_chunk_def)
  have "\<not> truthy (fst (getAIResponse throwing_env
          (createPrompt throwing_env sample_file sample_chunk sample_prDetails) empty_world))"
    unfolding a by simp
  with getAIResponse_payload_and_failures [where e = throwing_env and w = empty_world
      and chunk = sample_chunk and prDetails = sample_prDetails and rest = "[]"
      and comments = "[]" and ex = "[]" and prompt = "[]", of _ _ _ _ _ _ sample_file]
  have b: "analyze_chunks throwing_env sample_file sample_prDetails [] [sample_chunk] ([], empty_world)
     = (Inr [], snd (getAIResponse throwing_env
          (createPrompt throwing_env sample_file sample_chunk sample_prDetails) empty_world))"
    by simp
  have m: "match_json_block ''```json{}```'' = Some ''{}''"
    by (simp add: match_json_block_def before_last_def)
  have f: "chat_completions_create fenced_env (calls (send (ChatCompletionsCreate ''review this'') empty_world))
             = CompletionContent (Some ''```json{}```'')"
    by (simp add: fenced_env_def sample_env_def)
  have r: "response_text (Some ''```json{}```'') = ''```json{}```''"
    by (simp add: response_text_def trim_def is_space_def)
  have j: "JSON_parse_reviews fenced_env ''{}'' = Parsed Undefined"
    by (simp add: fenced_env_def sample_env_def JSON_sample_def)
  from getAIResponse_payload_and_failures [where e = fenced_env and prompt = "''review this''"
      and w = empty_world and c = "Some ''```json{}```''" and j = "''{}''" and r = Undefined
      and w' = "send (ChatCompletionsCreate ''review this'') empty_world"] f m j
  have c: "getAIResponse fenced_env ''review this'' empty_world
             = (Undefined, send (ChatCompletionsCreate ''review this'') empty_world) \<and>
           getAIResponse_old fenced_env ''review this'' empty_world
             = (Undefined, send (ChatCompletionsCreate ''review this'') empty_world)"
    unfolding r by simp
  from a b c m ch show ?thesis by simp
qed

text \<open>
  C3 as stated fails on the older variant: an answer that is raw JSON, without a fence, is
  not parsed there.
\<close>

theorem getAIResponse_old_raw_json_counterexample:
  \<open>chat_completions_create sample_env [ChatCompletionsCreate ''review this'']
     = CompletionContent (Some ''{"reviews":[{"lineNumber":"42","reviewComment":"avoid magic number"}]}'') \<and>
   match_json_block ''{"reviews":[{"lineNumber":"42","reviewComment":"avoid magic number"}]}'' = None \<and>
   fst (getAIResponse_old sample_env ''review this'' empty_world) = Null \<and>
   fst (getAIResponse sample_env ''review this'' empty_world)
     = Items [\<lparr>lineNumber = ''42'', reviewComment = ''avoid magic number'', optimizedCode = ''undefined''\<rparr>]\<close>
  by (simp add: getAIResponse_old_def getAIResponse_def parse_json_content_def sample_env_def
      empty_world_def send_def emit_def response_text_def trim_def is_space_def
      match_json_block_def before_last_def JSON_sample_def Let_def)

section \<open>Deduplicator: properties\<close>

lemma calls_emit [simp]: "calls (emit ls w) = calls w"
  by (simp add: emit_def)

lemma calls_send [simp]: "calls (send c w) = calls w @ [c]"
  by (simp add: send_def)

lemma console_send [simp]: "console (send c w) = console w"
  by (simp add: send_def)

lemma duplicate_iff:
  "duplicate ex c \<longleftrightarrow>
     (\<exists>x \<in> set ex. existing_path x = path c \<and> existing_line x = Some (line c) \<and> trim (existing_body x) = trim (body c))"
  by (simp add: duplicate_def list_ex_iff)

lemma push_comments_fst:
  "fst (push_comments ex new (cs, w)) = cs @ filter (\<lambda>c. \<not> duplicate ex c) new"
  by (induction new arbitrary: cs w) (simp_all add: Let_def)

lemma push_comments_calls:
  "calls (snd (push_comments ex new (cs, w))) = calls w"
  by (induction new arbitrary: cs w) (simp_all add: Let_def)

lemma parse_json_content_fst:
  "fst (parse_json_content e j w) = fst (parse_json_content e j w0)"
  by (simp add: parse_json_content_def split: parsed.splits)

lemma parse_json_content_calls:
  "calls (snd (parse_json_content e j w)) = calls w"
  by (simp add: parse_json_content_def split: parsed.splits)

lemma getAIResponse_calls:
  "calls (snd (getAIResponse e p w)) = calls w @ [ChatCompletionsCreate p]"
  by (simp add: getAIResponse_def Let_def parse_json_content_calls split: completion.splits)

lemma getAIResponse_fst:
  "calls w = calls w0 \<Longrightarrow> fst (getAIResponse e p w) = fst (getAIResponse e p w0)"
  by (simp add: getAIResponse_def Let_def parse_json_content_fst [of e _ "send (ChatCompletionsCreate p) w" "send (ChatCompletionsCreate p) w0"]
      split: completion.splits)

lemma analyze_chunks_dedup:
  assumes "calls w = calls w0"
  shows "calls (snd (analyze_chunks e file pr ex cks (filter (\<lambda>c. \<not> duplicate ex c) cs0, w)))
           = calls (snd (analyze_chunks e file pr [] cks (cs0, w0))) \<and>
         fst (analyze_chunks e file pr ex cks (filter (\<lambda>c. \<not> duplicate ex c) cs0, w))
           = map_sum id (filter (\<lambda>c. \<not> duplicate ex c)) (fst (analyze_chunks e file pr [] cks (cs0, w0)))"
  using assms
proof (induction cks arbitrary: cs0 w w0)
  case Nil
  then show ?case by simp
next
  case (Cons chunk rest)
  let ?p = "createPrompt e file chunk pr"
  let ?nd = "\<lambda>c. \<not> duplicate ex c"
  obtain a w1 where a: "getAIResponse e ?p w = (a, w1)" by (cases "getAIResponse e ?p w")
  obtain a0 w10 where a0: "getAIResponse e ?p w0 = (a0, w10)" by (cases "getAIResponse e ?p w0")
  from getAIResponse_fst [OF Cons.prems, of e ?p] a a0 have eq: "a0 = a" by simp
  from getAIResponse_calls [of e ?p w] getAIResponse_calls [of e ?p w0] a a0 Cons.prems
  have c1: "calls w1 = calls w10" by simp
  show ?case
  proof (cases a)
    case (Items rs)
    obtain new ls where new: "createComment e file chunk rs = (new, ls)"
      by (cases "createComment e file chunk rs")
    obtain w2 where s: "push_comments ex new (filter ?nd cs0, emit ls w1) = (filter ?nd (cs0 @ new), w2)"
      using push_comments_fst [of ex new "filter ?nd cs0" "emit ls w1"]
      by (cases "push_comments ex new (filter ?nd cs0, emit ls w1)") simp
    have "filter (\<lambda>c. \<not> duplicate [] c) new = new"
      by (simp add: duplicate_def)
    then obtain w20 where s0: "push_comments [] new (cs0, emit ls w10) = (cs0 @ new, w20)"
      using push_comments_fst [of "[]" new cs0 "emit ls w10"]
      by (cases "push_comments [] new (cs0, emit ls w10)") simp
    have cc: "calls w2 = calls w20"
      using c1 push_comments_calls [of ex new "filter ?nd cs0" "emit ls w1"]
        push_comments_calls [of "[]" new cs0 "emit ls w10"] s s0
      by simp
    have l: "analyze_chunks e file pr ex (chunk # rest) (filter ?nd cs0, w)
               = analyze_chunks e file pr ex rest (filter ?nd (cs0 @ new), w2)"
      using a Items new s by simp
    have r: "analyze_chunks e file pr [] (chunk # rest) (cs0, w0)
               = analyze_chunks e file pr [] rest (cs0 @ new, w20)"
      using a0 eq Items new s0 by simp
    show ?thesis unfolding l r by (rule Cons.IH [OF cc])
  next
    case Undefined
    with a a0 eq Cons.IH [OF c1] show ?thesis by simp
  next
    case Null
    with a a0 eq Cons.IH [OF c1] show ?thesis by simp
  next
    case (OtherValue b)
    with a a0 eq c1 Cons.IH [OF c1] show ?thesis by simp
  qed
qed

lemma analyze_files_dedup:
  assumes "calls w = calls w0"
  shows "calls (snd (analyze_files e pr ex fs (filter (\<lambda>c. \<not> duplicate ex c) cs0, w)))
           = calls (snd (analyze_files e pr [] fs (cs0, w0))) \<and>
         fst (analyze_files e pr ex fs (filter (\<lambda>c. \<not> duplicate ex c) cs0, w))
           = map_sum id (filter (\<lambda>c. \<not> duplicate ex c)) (fst (analyze_files e pr [] fs (cs0, w0)))"
  using assms
proof (induction fs arbitrary: cs0 w w0)
  case Nil
  then show ?case by simp
next
  case (Cons fl rest)
  let ?nd = "\<lambda>c. \<not> duplicate ex c"
  show ?case
  proof (cases "to fl = Some ''/dev/null''")
    case True
    with Cons.IH [OF Cons.prems] show ?thesis by simp
  next
    case False
    obtain r w1 where r: "analyze_chunks e fl pr ex (chunks fl) (filter ?nd cs0, w) = (r, w1)"
      by (cases "analyze_chunks e fl pr ex (chunks fl) (filter ?nd cs0, w)")
    obtain r0 w10 where r0: "analyze_chunks e fl pr [] (chunks fl) (cs0, w0) = (r0, w10)"
      by (cases "analyze_chunks e fl pr [] (chunks fl) (cs0, w0)")
    from analyze_chunks_dedup [OF Cons.prems, of e fl pr ex "chunks fl" cs0] r r0
    have c: "calls w1 = calls w10" and v: "r = map_sum id (filter ?nd) r0" by simp_all
    show ?thesis
    proof (cases r0)
      case (Inl f)
      with False r r0 c v show ?thesis by simp
    next
      case (Inr cs1)
      with False r r0 v Cons.IH [OF c, of cs1] show ?thesis by simp
    qed
  qed
qed

text \<open>
  C4. A new comment is a duplicate exactly when some existing comment has its path, its
  line as a number and, after trimming, its body; the loop over the new comments appends exactly those
  that are no duplicates; and the comments of a whole analysis are those of the analysis
  with an empty ledger without the duplicates, with the same requests sent.
\<close>

theorem deduplicator_drops_exactly_duplicates:
  "(duplicate ex c \<longleftrightarrow>
      (\<exists>x \<in> set ex. existing_path x = path c \<and> existing_line x = Some (line c) \<and> trim (existing_body x) = trim (body c))) \<and>
   fst (push_comments ex new (cs, w)) = cs @ filter (\<lambda>c. \<not> duplicate ex c) new \<and>
   fst (analyzeCode e parsedDiff prDetails ex w)
     = map_sum id (filter (\<lambda>c. \<not> duplicate ex c)) (fst (analyzeCode e parsedDiff prDetails [] w)) \<and>
   calls (snd (analyzeCode e parsedDiff prDetails ex w))
     = calls (snd (analyzeCode e parsedDiff prDetails [] w))"
proof -
  have "filter (\<lambda>c. \<not> duplicate ex c) [] = []" by simp
  with analyze_files_dedup [of w w e prDetails ex parsedDiff "[]"]
  have "fst (analyzeCode e parsedDiff prDetails ex w)
     = map_sum id (filter (\<lambda>c. \<not> duplicate ex c)) (fst (analyzeCode e parsedDiff prDetails [] w)) \<and>
   calls (snd (analyzeCode e parsedDiff prDetails ex w))
     = calls (snd (analyzeCode e parsedDiff prDetails [] w))"
    by (simp add: analyzeCode_def)
  with duplicate_iff [of ex c] push_comments_fst [of ex new cs w] show ?thesis by blast
qed

theorem deduplicator_drops_exactly_duplicates_witness:
  "duplicate [existing_X] \<lparr>body = '' X '', path = ''a.ts'', line = 10\<rparr> \<and>
   \<not> duplicate [existing_X] \<lparr>body = ''Y'', path = ''a.ts'', line = 10\<rparr> \<and>
   fst (push_comments [existing_X]
          [\<lparr>body = '' X '', path = ''a.ts'', line = 10\<rparr>, \<lparr>body = ''Y'', path = ''a.ts'', line = 10\<rparr>]
          ([], empty_world))
     = [\<lparr>body = ''Y'', path = ''a.ts'', line = 10\<rparr>] \<and>
   fst (analyzeCode sample_env [sample_file] sample_prDetails [] empty_world)
     = Inr [\<lparr>body = ''avoid magic number'', path = ''src/limit.ts'', line = 42\<rparr>] \<and>
   fst (analyzeCode sample_env [sample_file] sample_prDetails ledger_42 empty_world) = Inr []"
proof -
  have x: "\<exists>x \<in> set [existing_X]. existing_path x = path \<lparr>body = '' X '', path = ''a.ts'', line = 10\<rparr> \<and>
      existing_line x = Some (line \<lparr>body = '' X '', path = ''a.ts'', line = 10\<rparr>) \<and>
      trim (existing_body x) = trim (body \<lparr>body = '' X '', path = ''a.ts'', line = 10\<rparr>)"
    by (simp add: existing_X_def trim_def is_space_def)
  have y: "\<not> (\<exists>x \<in> set [existing_X]. existing_path x = path \<lparr>body = ''Y'', path = ''a.ts'', line = 10\<rparr> \<and>
      existing_line x = Some (line \<lparr>body = ''Y'', path = ''a.ts'', line = 10\<rparr>) \<and>
      trim (existing_body x) = trim (body \<lparr>body = ''Y'', path = ''a.ts'', line = 10\<rparr>))"
    by (simp add: existing_X_def trim_def is_space_def)
  note t = deduplicator_drops_exactly_duplicates
  from t [of "[existing_X]" "\<lparr>body = '' X '', path = ''a.ts'', line = 10\<rparr>"] x
  have dx: "duplicate [existing_X] \<lparr>body = '' X '', path = ''a.ts'', line = 10\<rparr>" by blast
  from t [of "[existing_X]" "\<lparr>body = ''Y'', path = ''a.ts'', line = 10\<rparr>"] y
  have dy: "\<not> duplicate [existing_X] \<lparr>body = ''Y'', path = ''a.ts'', line = 10\<rparr>" by blast
  from t [of "[existing_X]" _
      "[\<lparr>body = '' X '', path = ''a.ts'', line = 10\<rparr>, \<lparr>body = ''Y'', path = ''a.ts'', line = 10\<rparr>]"
      "[]" empty_world] dx dy
  have p: "fst (push_comments [existing_X]
          [\<lparr>body = '' X '', path = ''a.ts'', line = 10\<rparr>, \<lparr>body = ''Y'', path = ''a.ts'', line = 10\<rparr>]
          ([], empty_world))
     = [\<lparr>body = ''Y'', path = ''a.ts'', line = 10\<rparr>]"
    by simp
  have a0: "fst (analyzeCode sample_env [sample_file] sample_prDetails [] empty_world)
     = Inr [\<lparr>body = ''avoid magic number'', path = ''src/limit.ts'', line = 42\<rparr>]"
    by (simp add: analyzeCode_def sample_file_def sample_chunk_def getAIResponse_def parse_json_content_def sample_env_def
        response_text_def trim_def is_space_def match_json_block_def before_last_def JSON_sample_def
        Let_def createComment_item_def Number_digits_def matches_def commentLine_def duplicate_def)
  have d: "duplicate ledger_42 \<lparr>body = ''avoid magic number'', path = ''src/limit.ts'', line = 42\<rparr>"
    by (simp add: duplicate_def ledger_42_def trim_def is_space_def)
  from t [where ex = ledger_42 and e = sample_env and parsedDiff = "[sample_file]"
      and prDetails = sample_prDetails and w = empty_world] a0 d
  have a1: "fst (analyzeCode sample_env [sample_file] sample_prDetails ledger_42 empty_world) = Inr []"
    by simp
  from dx dy p a0 a1 show ?thesis by blast
qed

section \<open>Publisher: properties\<close>

lemma console_emit [simp]: "console (emit ls w) = console w @ ls"
  by (simp add: emit_def)

lemma post_comments_calls:
  "calls (post_comments e ow rp n cid vs w)
     = calls w @ map (\<lambda>c. PullsCreateReviewComment ow rp n (body c) (path c) (line c) ''RIGHT'' cid) vs"
  by (induction vs arbitrary: w) (simp_all add: Let_def)

lemma post_comments_console_mono:
  "set (console w) \<subseteq> set (console (post_comments e ow rp n cid vs w))"
proof (induction vs arbitrary: w)
  case Nil
  show ?case by simp
next
  case (Cons c rest)
  let ?w1 = "send (PullsCreateReviewComment ow rp n (body c) (path c) (line c) ''RIGHT'' cid) w"
  let ?w2 = "emit [ConsoleError ''Error creating review comment:'', RequestData ow rp n c cid] ?w1"
  show ?case
  proof (cases "pulls_createReviewComment e (calls ?w1)")
    case True
    with Cons.IH [of ?w1] show ?thesis by (simp add: Let_def)
  next
    case False
    with Cons.IH [of ?w2] show ?thesis by (simp add: Let_def)
  qed
qed

lemma post_comments_logs_failure:
  assumes "i < length vs"
    and "\<not> pulls_createReviewComment e
           (calls w @ map (\<lambda>c. PullsCreateReviewComment ow rp n (body c) (path c) (line c) ''RIGHT'' cid)
              (take (Suc i) vs))"
  shows "{ConsoleError ''Error creating review comment:'', RequestData ow rp n (vs ! i) cid}
           \<subseteq> set (console (post_comments e ow rp n cid vs w))"
  using assms
proof (induction vs arbitrary: w i)
  case Nil
  then show ?case by simp
next
  case (Cons c rest)
  let ?w1 = "send (PullsCreateReviewComment ow rp n (body c) (path c) (line c) ''RIGHT'' cid) w"
  let ?w2 = "emit [ConsoleError ''Error creating review comment:'', RequestData ow rp n c cid] ?w1"
  show ?case
  proof (cases i)
    case 0
    with Cons.prems have f: "\<not> pulls_createReviewComment e (calls ?w1)" by simp
    then have "post_comments e ow rp n cid (c # rest) w = post_comments e ow rp n cid rest ?w2"
      by (simp add: Let_def)
    moreover have "{ConsoleError ''Error creating review comment:'', RequestData ow rp n c cid}
                     \<subseteq> set (console ?w2)" by simp
    ultimately show ?thesis
      using post_comments_console_mono [of ?w2 e ow rp n cid rest] 0 by auto
  next
    case (Suc k)
    with Cons.prems have k: "k < length rest" by simp
    show ?thesis
    proof (cases "pulls_createReviewComment e (calls ?w1)")
      case True
      from Cons.prems(2) Suc have "\<not> pulls_createReviewComment e
           (calls ?w1 @ map (\<lambda>c. PullsCreateReviewComment ow rp n (body c) (path c) (line c) ''RIGHT'' cid)
              (take (Suc k) rest))" by simp
      from Cons.IH [OF k this] True Suc show ?thesis by (simp add: Let_def)
    next
      case False
      from Cons.prems(2) Suc have "\<not> pulls_createReviewComment e
           (calls ?w2 @ map (\<lambda>c. PullsCreateReviewComment ow rp n (body c) (path c) (line c) ''RIGHT'' cid)
              (take (Suc k) rest))" by simp
      from Cons.IH [OF k this] False Suc show ?thesis by (simp add: Let_def)
    qed
  qed
qed

lemma createReviewComment_calls:
  "calls (createReviewComment e ow rp n comments cid w)
     = calls w @ map (\<lambda>c. PullsCreateReviewComment ow rp n (body c) (path c) (line c) ''RIGHT'' cid)
         (filter valid comments)"
  by (simp add: createReviewComment_def Let_def post_comments_calls)

text \<open>
  C6. \<open>createReviewComment\<close> of \<open>src/main.ts\<close> sends one request for each comment that has
  a non-empty path, a line above 0 and a body that is not empty after trimming, in the
  order of the list and whatever the answers to the earlier requests were; when the
  request for a comment is rejected, the console gets the error line and the request data
  with that comment.
\<close>

theorem createReviewComment_posts_each_valid_comment:
  "(valid c \<longleftrightarrow> path c \<noteq> [] \<and> 0 < line c \<and> trim (body c) \<noteq> []) \<and>
   calls (createReviewComment e ow rp n comments cid w)
     = calls w @ map (\<lambda>c. PullsCreateReviewComment ow rp n (body c) (path c) (line c) ''RIGHT'' cid)
         (filter valid comments) \<and>
   (\<forall>i < length (filter valid comments).
      \<not> pulls_createReviewComment e
          (calls w @ map (\<lambda>c. PullsCreateReviewComment ow rp n (body c) (path c) (line c) ''RIGHT'' cid)
             (take (Suc i) (filter valid comments))) \<longrightarrow>
      {ConsoleError ''Error creating review comment:'', RequestData ow rp n (filter valid comments ! i) cid}
        \<subseteq> set (console (createReviewComment e ow rp n comments cid w)))"
proof (intro conjI allI impI)
  show "valid c \<longleftrightarrow> path c \<noteq> [] \<and> 0 < line c \<and> trim (body c) \<noteq> []"
    by (simp add: valid_def)
  show "calls (createReviewComment e ow rp n comments cid w)
     = calls w @ map (\<lambda>c. PullsCreateReviewComment ow rp n (body c) (path c) (line c) ''RIGHT'' cid)
         (filter valid comments)"
    by (rule createReviewComment_calls)
next
  fix i
  assume i: "i < length (filter valid comments)"
    and f: "\<not> pulls_createReviewComment e
          (calls w @ map (\<lambda>c. PullsCreateReviewComment ow rp n (body c) (path c) (line c) ''RIGHT'' cid)
             (take (Suc i) (filter valid comments)))"
  from i have "length (filter valid comments) \<noteq> 0" by auto
  then have "createReviewComment e ow rp n comments cid w
               = post_comments e ow rp n cid (filter valid comments) w"
    by (simp add: createReviewComment_def Let_def)
  with post_comments_logs_failure [OF i f]
  show "{ConsoleError ''Error creating review comment:'', RequestData ow rp n (filter valid comments ! i) cid}
        \<subseteq> set (console (createReviewComment e ow rp n comments cid w))"
    by simp
qed

theorem createReviewComment_posts_each_valid_comment_witness:
  "filter valid three_comments
     = [\<lparr>body = ''avoid magic number'', path = ''src/limit.ts'', line = 42\<rparr>,
        \<lparr>body = ''use const'', path = ''src/limit.ts'', line = 41\<rparr>] \<and>
   calls (createReviewComment flaky_env ''acme'' ''shop'' 7 three_comments ''c0ffee'' empty_world)
     = [PullsCreateReviewComment ''acme'' ''shop'' 7 ''avoid magic number'' ''src/limit.ts'' 42 ''RIGHT'' ''c0ffee'',
        PullsCreateReviewComment ''acme'' ''shop'' 7 ''use const'' ''src/limit.ts'' 41 ''RIGHT'' ''c0ffee''] \<and>
   RequestData ''acme'' ''shop'' 7 \<lparr>body = ''avoid magic number'', path = ''src/limit.ts'', line = 42\<rparr> ''c0ffee''
     \<in> set (console (createReviewComment flaky_env ''acme'' ''shop'' 7 three_comments ''c0ffee'' empty_world))"
proof -
  note t = createReviewComment_posts_each_valid_comment [where e = flaky_env and ow = "''acme''"
      and rp = "''shop''" and n = 7 and comments = three_comments and cid = "''c0ffee''" and w = empty_world]
  have v: "filter valid three_comments
     = [\<lparr>body = ''avoid magic number'', path = ''src/limit.ts'', line = 42\<rparr>,
        \<lparr>body = ''use const'', path = ''src/limit.ts'', line = 41\<rparr>]"
    by (simp add: three_comments_def valid_def trim_def is_space_def)
  have f: "\<not> pulls_createReviewComment flaky_env
          (calls empty_world @ map (\<lambda>c. PullsCreateReviewComment ''acme'' ''shop'' 7 (body c) (path c) (line c) ''RIGHT'' ''c0ffee'')
             (take (Suc 0) (filter valid three_comments)))"
    unfolding v by (simp add: flaky_env_def sample_env_def empty_world_def)
  have "0 < length (filter valid three_comments)" unfolding v by simp
  with t f have "{ConsoleError ''Error creating review comment:'',
                  RequestData ''acme'' ''shop'' 7 (filter valid three_comments ! 0) ''c0ffee''}
        \<subseteq> set (console (createReviewComment flaky_env ''acme'' ''shop'' 7 three_comments ''c0ffee'' empty_world))"
    by blast
  moreover from t have "calls (createReviewComment flaky_env ''acme'' ''shop'' 7 three_comments ''c0ffee'' empty_world)
     = calls empty_world @ map (\<lambda>c. PullsCreateReviewComment ''acme'' ''shop'' 7 (body c) (path c) (line c) ''RIGHT'' ''c0ffee'')
         (filter valid three_comments)" by blast
  ultimately show ?thesis unfolding v by (simp add: empty_world_def)
qed

section \<open>Requests of an analysis\<close>

lemma getAIResponse_old_calls:
  "calls (snd (getAIResponse_old e p w)) = calls w @ [ChatCompletionsCreate p]"
  by (simp add: getAIResponse_old_def Let_def parse_json_content_calls
      split: completion.splits option.splits)

lemma analyze_chunks_calls:
  "\<exists>new. calls (snd (analyze_chunks e f pr ex cks (cs, w))) = calls w @ new \<and>
         (\<forall>c \<in> set new. \<exists>ch \<in> set cks. c = ChatCompletionsCreate (createPrompt e f ch pr))"
proof (induction cks arbitrary: cs w)
  case Nil
  show ?case by simp
next
  case (Cons chunk rest)
  let ?p = "createPrompt e f chunk pr"
  obtain a w1 where a: "getAIResponse e ?p w = (a, w1)" by (cases "getAIResponse e ?p w")
  with getAIResponse_calls [of e ?p w] have c1: "calls w1 = calls w @ [ChatCompletionsCreate ?p]"
    by simp
  have step: "\<exists>new. calls (snd (analyze_chunks e f pr ex rest (cs', w'))) = calls w @ new \<and>
         (\<forall>c \<in> set new. \<exists>ch \<in> set (chunk # rest). c = ChatCompletionsCreate (createPrompt e f ch pr))"
    if "calls w' = calls w1" for cs' w'
  proof -
    from Cons.IH [of cs' w'] obtain new where
      n: "calls (snd (analyze_chunks e f pr ex rest (cs', w'))) = calls w' @ new"
         "\<forall>c \<in> set new. \<exists>ch \<in> set rest. c = ChatCompletionsCreate (createPrompt e f ch pr)"
      by blast
    from n(1) that c1
    have "calls (snd (analyze_chunks e f pr ex rest (cs', w'))) = calls w @ (ChatCompletionsCreate ?p # new)"
      by simp
    moreover from n(2)
    have "\<forall>c \<in> set (ChatCompletionsCreate ?p # new).
            \<exists>ch \<in> set (chunk # rest). c = ChatCompletionsCreate (createPrompt e f ch pr)"
      by auto
    ultimately show ?thesis by blast
  qed
  show ?case
  proof (cases a)
    case (Items rs)
    obtain new ls where new: "createComment e f chunk rs = (new, ls)"
      by (cases "createComment e f chunk rs")
    obtain cs2 w2 where s: "push_comments ex new (cs, emit ls w1) = (cs2, w2)"
      by (cases "push_comments ex new (cs, emit ls w1)")
    with push_comments_calls [of ex new cs "emit ls w1"] have "calls w2 = calls w1" by simp
    from step [OF this, of cs2] a Items new s show ?thesis by simp
  next
    case Undefined
    with a step [of w1 cs] show ?thesis by simp
  next
    case Null
    with a step [of w1 cs] show ?thesis by simp
  next
    case (OtherValue b)
    show ?thesis
    proof (cases b)
      case False
      with OtherValue a step [of w1 cs] show ?thesis by simp
    next
      case True
      with OtherValue a c1 have "calls (snd (analyze_chunks e f pr ex (chunk # rest) (cs, w)))
          = calls w @ [ChatCompletionsCreate ?p]" by simp
      then show ?thesis by auto
    qed
  qed
qed

lemma analyze_chunks_old_calls:
  "\<exists>new. calls (snd (analyze_chunks_old e f pr cks (cs, w))) = calls w @ new \<and>
         (\<forall>c \<in> set new. \<exists>ch \<in> set cks. c = ChatCompletionsCreate (createPrompt_old e f ch pr))"
proof (induction cks arbitrary: cs w)
  case Nil
  show ?case by simp
next
  case (Cons chunk rest)
  let ?p = "createPrompt_old e f chunk pr"
  obtain a w1 where a: "getAIResponse_old e ?p w = (a, w1)" by (cases "getAIResponse_old e ?p w")
  with getAIResponse_old_calls [of e ?p w] have c1: "calls w1 = calls w @ [ChatCompletionsCreate ?p]"
    by simp
  have step: "\<exists>new. calls (snd (analyze_chunks_old e f pr rest (cs', w'))) = calls w @ new \<and>
         (\<forall>c \<in> set new. \<exists>ch \<in> set (chunk # rest). c = ChatCompletionsCreate (createPrompt_old e f ch pr))"
    if "calls w' = calls w1" for cs' w'
  proof -
    from Cons.IH [of cs' w'] obtain new where
      n: "calls (snd (analyze_chunks_old e f pr rest (cs', w'))) = calls w' @ new"
         "\<forall>c \<in> set new. \<exists>ch \<in> set rest. c = ChatCompletionsCreate (createPrompt_old e f ch pr)"
      by blast
    from n(1) that c1
    have "calls (snd (analyze_chunks_old e f pr rest (cs', w'))) = calls w @ (ChatCompletionsCreate ?p # new)"
      by simp
    moreover from n(2)
    have "\<forall>c \<in> set (ChatCompletionsCreate ?p # new).
            \<exists>ch \<in> set (chunk # rest). c = ChatCompletionsCreate (createPrompt_old e f ch pr)"
      by auto
    ultimately show ?thesis by blast
  qed
  show ?case
  proof (cases a)
    case (Items rs)
    obtain new ls where new: "createComment_old e f chunk rs = (new, ls)"
      by (cases "createComment_old e f chunk rs")
    have "calls (emit ls w1) = calls w1" by simp
    from step [OF this, of "cs @ new"] a Items new show ?thesis by simp
  next
    case Undefined
    with a step [of w1 cs] show ?thesis by simp
  next
    case Null
    with a step [of w1 cs] show ?thesis by simp
  next
    case (OtherValue b)
    show ?thesis
    proof (cases b)
      case False
      with OtherValue a step [of w1 cs] show ?thesis by simp
    next
      case True
      with OtherValue a c1 have "calls (snd (analyze_chunks_old e f pr (chunk # rest) (cs, w)))
          = calls w @ [ChatCompletionsCreate ?p]" by simp
      then show ?thesis by auto
    qed
  qed
qed

lemma analyze_files_calls:
  "\<exists>new. calls (snd (analyze_files e pr ex fs (cs, w))) = calls w @ new \<and>
         (\<forall>c \<in> set new. \<exists>f \<in> set fs. \<exists>ch \<in> set (chunks f).
            c = ChatCompletionsCreate (createPrompt e f ch pr))"
proof (induction fs arbitrary: cs w)
  case Nil
  show ?case by simp
next
  case (Cons f rest)
  show ?case
  proof (cases "to f = Some ''/dev/null''")
    case True
    from Cons.IH [of cs w] obtain new where
      "calls (snd (analyze_files e pr ex rest (cs, w))) = calls w @ new"
      "\<forall>c \<in> set new. \<exists>f \<in> set rest. \<exists>ch \<in> set (chunks f).
            c = ChatCompletionsCreate (createPrompt e f ch pr)" by blast
    with True show ?thesis by auto
  next
    case False
    obtain r w1 where r: "analyze_chunks e f pr ex (chunks f) (cs, w) = (r, w1)"
      by (cases "analyze_chunks e f pr ex (chunks f) (cs, w)")
    from analyze_chunks_calls [of e f pr ex "chunks f" cs w] r obtain n1 where
      n1: "calls w1 = calls w @ n1"
          "\<forall>c \<in> set n1. \<exists>ch \<in> set (chunks f). c = ChatCompletionsCreate (createPrompt e f ch pr)"
      by auto
    show ?thesis
    proof (cases r)
      case (Inl x)
      with False r have "calls (snd (analyze_files e pr ex (f # rest) (cs, w))) = calls w @ n1"
        using n1(1) by simp
      with n1(2) show ?thesis by auto
    next
      case (Inr cs1)
      from Cons.IH [of cs1 w1] obtain n2 where
        n2: "calls (snd (analyze_files e pr ex rest (cs1, w1))) = calls w1 @ n2"
            "\<forall>c \<in> set n2. \<exists>f \<in> set rest. \<exists>ch \<in> set (chunks f).
               c = ChatCompletionsCreate (createPrompt e f ch pr)" by blast
      from Inr False r n1(1) n2(1)
      have "calls (snd (analyze_files e pr ex (f # rest) (cs, w))) = calls w @ (n1 @ n2)"
        by simp
      moreover from n1(2) n2(2)
      have "\<forall>c \<in> set (n1 @ n2). \<exists>f' \<in> set (f # rest). \<exists>ch \<in> set (chunks f').
               c = ChatCompletionsCreate (createPrompt e f' ch pr)"
        by auto
      ultimately show ?thesis by blast
    qed
  qed
qed

lemma analyze_files_old_calls:
  "\<exists>new. calls (snd (analyze_files_old e pr fs (cs, w))) = calls w @ new \<and>
         (\<forall>c \<in> set new. \<exists>f \<in> set fs. \<exists>ch \<in> set (chunks f).
            c = ChatCompletionsCreate (createPrompt_old e f ch pr))"
proof (induction fs arbitrary: cs w)
  case Nil
  show ?case by simp
next
  case (Cons f rest)
  show ?case
  proof (cases "to f = Some ''/dev/null''")
    case True
    from Cons.IH [of cs w] obtain new where
      "calls (snd (analyze_files_old e pr rest (cs, w))) = calls w @ new"
      "\<forall>c \<in> set new. \<exists>f \<in> set rest. \<exists>ch \<in> set (chunks f).
            c = ChatCompletionsCreate (createPrompt_old e f ch pr)" by blast
    with True show ?thesis by auto
  next
    case False
    obtain r w1 where r: "analyze_chunks_old e f pr (chunks f) (cs, w) = (r, w1)"
      by (cases "analyze_chunks_old e f pr (chunks f) (cs, w)")
    from analyze_chunks_old_calls [of e f pr "chunks f" cs w] r obtain n1 where
      n1: "calls w1 = calls w @ n1"
          "\<forall>c \<in> set n1. \<exists>ch \<in> set (chunks f). c = ChatCompletionsCreate (createPrompt_old e f ch pr)"
      by auto
    show ?thesis
    proof (cases r)
      case (Inl x)
      with False r have "calls (snd (analyze_files_old e pr (f # rest) (cs, w))) = calls w @ n1"
        using n1(1) by simp
      with n1(2) show ?thesis by auto
    next
      case (Inr cs1)
      from Cons.IH [of cs1 w1] obtain n2 where
        n2: "calls (snd (analyze_files_old e pr rest (cs1, w1))) = calls w1 @ n2"
            "\<forall>c \<in> set n2. \<exists>f \<in> set rest. \<exists>ch \<in> set (chunks f).
               c = ChatCompletionsCreate (createPrompt_old e f ch pr)" by blast
      from Inr False r n1(1) n2(1)
      have "calls (snd (analyze_files_old e pr (f # rest) (cs, w))) = calls w @ (n1 @ n2)"
        by simp
      moreover from n1(2) n2(2)
      have "\<forall>c \<in> set (n1 @ n2). \<exists>f' \<in> set (f # rest). \<exists>ch \<in> set (chunks f').
               c = ChatCompletionsCreate (createPrompt_old e f' ch pr)"
        by auto
      ultimately show ?thesis by blast
    qed
  qed
qed

lemma analyze_files_deleted:
  "\<forall>f \<in> set fs. to f = Some ''/dev/null'' \<Longrightarrow> analyze_files e pr ex fs (cs, w) = (Inr cs, w)"
  by (induction fs) simp_all

lemma analyze_files_old_deleted:
  "\<forall>f \<in> set fs. to f = Some ''/dev/null'' \<Longrightarrow> analyze_files_old e pr fs (cs, w) = (Inr cs, w)"
  by (induction fs) simp_all

section \<open>The run after the diff: requests\<close>

lemma getExistingComments_calls:
  "calls (snd (getExistingComments e ow rp n w)) = calls w @ [PullsListReviewComments ow rp n]"
  by (simp add: getExistingComments_def Let_def split: option.splits)

lemma filteredDiff_iff:
  "filteredDiff e fs
     = filter (\<lambda>f. \<not> (\<exists>pattern \<in> set (excludePatterns e). minimatch e (to_or_empty f) pattern)) fs"
  by (simp add: filteredDiff_def list_ex_iff)

lemma split_nonempty: "split sep s \<noteq> []"
  by (induction s) (auto split: list.splits)

lemma join_split: "join [sep] (split sep s) = s"
proof (induction s)
  case Nil
  show ?case by simp
next
  case (Cons c cs)
  show ?case
  proof (cases "c = sep")
    case True
    obtain x xs where x: "split sep cs = x # xs"
      using split_nonempty [of sep cs] by (cases "split sep cs") auto
    with True Cons.IH show ?thesis by simp
  next
    case False
    obtain x xs where x: "split sep cs = x # xs"
      using split_nonempty [of sep cs] by (cases "split sep cs") auto
    with False Cons.IH show ?thesis by (cases xs) auto
  qed
qed

lemma split_no_sep: "x \<in> set (split sep s) \<Longrightarrow> sep \<notin> set x"
proof (induction s arbitrary: x)
  case Nil
  then show ?case by simp
next
  case (Cons c cs)
  obtain y ys where y: "split sep cs = y # ys"
    using split_nonempty [of sep cs] by (cases "split sep cs") auto
  show ?case
  proof (cases "c = sep")
    case True
    with Cons show ?thesis by auto
  next
    case False
    with Cons.prems y have "x = c # y \<or> x \<in> set ys" by simp
    with Cons.IH [of y] Cons.IH [of x] y False show ?thesis by auto
  qed
qed

lemma review_diff_deleted:
  assumes "\<forall>f \<in> set (parseDiff e diff). to f = Some ''/dev/null''"
  shows "calls (snd (review_diff e pr diff cid w))
           = (if diff = [] then calls w
              else calls w @ [PullsListReviewComments (owner pr) (repo pr) (pull_number pr)])"
    and "calls (snd (review_diff_old e pr diff w)) = calls w"
proof -
  from assms have d: "\<forall>f \<in> set (filteredDiff e (parseDiff e diff)). to f = Some ''/dev/null''"
    by (simp add: filteredDiff_def)
  have a: "analyzeCode e (filteredDiff e (parseDiff e diff)) pr ex w' = (Inr [], w')" for ex w'
    using analyze_files_deleted [OF d] by (simp add: analyzeCode_def)
  have b: "analyzeCode_old e (filteredDiff e (parseDiff e diff)) pr w' = (Inr [], w')" for w'
    using analyze_files_old_deleted [OF d] by (simp add: analyzeCode_old_def)
  obtain r w1 where g: "getExistingComments e (owner pr) (repo pr) (pull_number pr) w = (r, w1)"
    by (cases "getExistingComments e (owner pr) (repo pr) (pull_number pr) w")
  with getExistingComments_calls [of e "owner pr" "repo pr" "pull_number pr" w]
  have c: "calls w1 = calls w @ [PullsListReviewComments (owner pr) (repo pr) (pull_number pr)]"
    by simp
  show "calls (snd (review_diff e pr diff cid w))
           = (if diff = [] then calls w
              else calls w @ [PullsListReviewComments (owner pr) (repo pr) (pull_number pr)])"
    using g c a by (cases r) (simp_all add: review_diff_def Let_def)
  show "calls (snd (review_diff_old e pr diff w)) = calls w"
    using b by (simp add: review_diff_old_def Let_def)
qed

lemma review_diff_calls:
  "\<exists>new. calls (snd (review_diff e pr diff cid w)) = calls w @ new \<and>
     (\<forall>c \<in> set new.
        c = PullsListReviewComments (owner pr) (repo pr) (pull_number pr) \<or>
        (\<exists>f \<in> set (filteredDiff e (parseDiff e diff)). \<exists>ch \<in> set (chunks f).
           c = ChatCompletionsCreate (createPrompt e f ch pr)) \<or>
        (\<exists>b p l. c = PullsCreateReviewComment (owner pr) (repo pr) (pull_number pr) b p l ''RIGHT'' cid))"
proof (cases "diff = []")
  case True
  then show ?thesis by (simp add: review_diff_def)
next
  case False
  let ?L = "PullsListReviewComments (owner pr) (repo pr) (pull_number pr)"
  let ?fs = "filteredDiff e (parseDiff e diff)"
  obtain r w1 where g: "getExistingComments e (owner pr) (repo pr) (pull_number pr) w = (r, w1)"
    by (cases "getExistingComments e (owner pr) (repo pr) (pull_number pr) w")
  with getExistingComments_calls [of e "owner pr" "repo pr" "pull_number pr" w]
  have c1: "calls w1 = calls w @ [?L]" by simp
  show ?thesis
  proof (cases r)
    case (Inl x)
    with False g c1 have "calls (snd (review_diff e pr diff cid w)) = calls w @ [?L]"
      by (simp add: review_diff_def Let_def)
    then show ?thesis by auto
  next
    case (Inr ex)
    obtain r2 w2 where a: "analyzeCode e ?fs pr ex w1 = (r2, w2)"
      by (cases "analyzeCode e ?fs pr ex w1")
    from analyze_files_calls [of e pr ex ?fs "[]" w1] a obtain n2 where
      n2: "calls w2 = calls w1 @ n2"
          "\<forall>c \<in> set n2. \<exists>f \<in> set ?fs. \<exists>ch \<in> set (chunks f).
             c = ChatCompletionsCreate (createPrompt e f ch pr)"
      by (auto simp: analyzeCode_def)
    show ?thesis
    proof (cases r2)
      case (Inl x)
      with False g Inr a c1 n2(1)
      have "calls (snd (review_diff e pr diff cid w)) = calls w @ (?L # n2)"
        by (simp add: review_diff_def Let_def)
      moreover from n2(2) have "\<forall>c \<in> set (?L # n2).
        c = ?L \<or>
        (\<exists>f \<in> set ?fs. \<exists>ch \<in> set (chunks f). c = ChatCompletionsCreate (createPrompt e f ch pr)) \<or>
        (\<exists>b p l. c = PullsCreateReviewComment (owner pr) (repo pr) (pull_number pr) b p l ''RIGHT'' cid)"
        by auto
      ultimately show ?thesis by blast
    next
      case (Inr comments)
      let ?mk = "\<lambda>c. PullsCreateReviewComment (owner pr) (repo pr) (pull_number pr)
                        (body c) (path c) (line c) ''RIGHT'' cid"
      let ?n3 = "if length comments > 0 then map ?mk (filter valid comments) else []"
      from False g \<open>r = Inr ex\<close> a Inr c1 n2(1)
      have "calls (snd (review_diff e pr diff cid w)) = calls w @ (?L # n2 @ ?n3)"
        by (simp add: review_diff_def Let_def createReviewComment_calls)
      moreover from n2(2) have "\<forall>c \<in> set (?L # n2 @ ?n3).
        c = ?L \<or>
        (\<exists>f \<in> set ?fs. \<exists>ch \<in> set (chunks f). c = ChatCompletionsCreate (createPrompt e f ch pr)) \<or>
        (\<exists>b p l. c = PullsCreateReviewComment (owner pr) (repo pr) (pull_number pr) b p l ''RIGHT'' cid)"
        by auto
      ultimately show ?thesis by blast
    qed
  qed
qed

lemma review_diff_old_calls:
  "\<exists>new. calls (snd (review_diff_old e pr diff w)) = calls w @ new \<and>
     (\<forall>c \<in> set new.
        (\<exists>f \<in> set (filteredDiff e (parseDiff e diff)). \<exists>ch \<in> set (chunks f).
           c = ChatCompletionsCreate (createPrompt_old e f ch pr)) \<or>
        (\<exists>cs. c = PullsCreateReview (owner pr) (repo pr) (pull_number pr) cs ''COMMENT''))"
proof (cases "diff = []")
  case True
  then show ?thesis by (simp add: review_diff_old_def)
next
  case False
  let ?fs = "filteredDiff e (parseDiff e diff)"
  obtain r2 w2 where a: "analyzeCode_old e ?fs pr w = (r2, w2)"
    by (cases "analyzeCode_old e ?fs pr w")
  from analyze_files_old_calls [of e pr ?fs "[]" w] a obtain n2 where
    n2: "calls w2 = calls w @ n2"
        "\<forall>c \<in> set n2. \<exists>f \<in> set ?fs. \<exists>ch \<in> set (chunks f).
           c = ChatCompletionsCreate (createPrompt_old e f ch pr)"
    by (auto simp: analyzeCode_old_def)
  show ?thesis
  proof (cases r2)
    case (Inl x)
    with False a n2(1)
    have "calls (snd (review_diff_old e pr diff w)) = calls w @ n2"
      by (simp add: review_diff_old_def Let_def)
    with n2(2) show ?thesis by blast
  next
    case (Inr comments)
    let ?n3 = "if length comments > 0
               then [PullsCreateReview (owner pr) (repo pr) (pull_number pr) comments ''COMMENT''] else []"
    from False a Inr n2(1)
    have "calls (snd (review_diff_old e pr diff w)) = calls w @ (n2 @ ?n3)"
      by (simp add: review_diff_old_def Let_def createReviewComment_old_def)
    moreover from n2(2) have "\<forall>c \<in> set (n2 @ ?n3).
        (\<exists>f \<in> set ?fs. \<exists>ch \<in> set (chunks f). c = ChatCompletionsCreate (createPrompt_old e f ch pr)) \<or>
        (\<exists>cs. c = PullsCreateReview (owner pr) (repo pr) (pull_number pr) cs ''COMMENT'')"
      by auto
    ultimately show ?thesis by blast
  qed
qed

section \<open>Runs of main\<close>

lemma sample_review_diff:
  assumes "diff \<noteq> []"
  shows "calls (snd (review_diff sample_env sample_prDetails diff cid w))
     = calls w @
       [PullsListReviewComments ''acme'' ''shop'' 7,
        ChatCompletionsCreate (createPrompt sample_env sample_file sample_chunk sample_prDetails),
        PullsCreateReviewComment ''acme'' ''shop'' 7 ''avoid magic number'' ''src/limit.ts'' 42 ''RIGHT'' cid]"
proof -
  have p: "excludePatterns sample_env = [''dist/out.js'', ''package-lock.json'']"
    by (simp add: excludePatterns_def sample_env_def trim_def is_space_def)
  have f: "filteredDiff sample_env (parseDiff sample_env diff) = [sample_file]"
    unfolding filteredDiff_def p
    by (simp add: sample_env_def to_or_empty_def) (simp add: sample_file_def)
  have a: "getAIResponse sample_env q w'
     = (Items [\<lparr>lineNumber = ''42'', reviewComment = ''avoid magic number'', optimizedCode = ''undefined''\<rparr>],
        send (ChatCompletionsCreate q) w')" for q w'
    by (simp add: getAIResponse_def parse_json_content_def sample_env_def
        response_text_def trim_def is_space_def match_json_block_def before_last_def JSON_sample_def Let_def)
  have cc: "createComment_item sample_env sample_file sample_chunk
       \<lparr>lineNumber = ''42'', reviewComment = ''avoid magic number'', optimizedCode = ''undefined''\<rparr>
     = ([\<lparr>body = ''avoid magic number'', path = ''src/limit.ts'', line = 42\<rparr>], [])"
    by (simp add: createComment_item_def sample_file_def sample_chunk_def sample_env_def Number_digits_def
        matches_def commentLine_def)
  have sf: "chunks sample_file = [sample_chunk]" "to sample_file = Some ''src/limit.ts''"
    by (simp_all add: sample_file_def)
  have g: "getExistingComments sample_env ''acme'' ''shop'' 7 w
             = (Inr [], send (PullsListReviewComments ''acme'' ''shop'' 7) w)"
    by (simp add: getExistingComments_def sample_env_def Let_def)
  have an: "analyzeCode sample_env [sample_file] sample_prDetails [] w'
     = (Inr [\<lparr>body = ''avoid magic number'', path = ''src/limit.ts'', line = 42\<rparr>],
        emit [ConsoleLogComment ''Processing comment:''
                \<lparr>body = ''avoid magic number'', path = ''src/limit.ts'', line = 42\<rparr>]
          (send (ChatCompletionsCreate (createPrompt sample_env sample_file sample_chunk sample_prDetails)) w'))"
    for w'
    by (simp add: analyzeCode_def sf a cc duplicate_def Let_def)
  have v: "valid \<lparr>body = ''avoid magic number'', path = ''src/limit.ts'', line = 42\<rparr>"
    by (simp add: valid_def trim_def is_space_def)
  have pr: "owner sample_prDetails = ''acme''" "repo sample_prDetails = ''shop''"
    "pull_number sample_prDetails = 7"
    by (simp_all add: sample_prDetails_def)
  show ?thesis
    unfolding review_diff_def f Let_def pr g
    using assms by (simp add: an createReviewComment_calls v)
qed

lemma getPRDetails_cases:
  "(pulls_get e (calls w @ [PullsGet (repository_owner_login ev) (repository_name ev) (number ev)]) = None \<and>
    getPRDetails e ev w
      = (Inl RequestRejected, send (PullsGet (repository_owner_login ev) (repository_name ev) (number ev)) w)) \<or>
   (\<exists>prD. getPRDetails e ev w
      = (Inr prD, send (PullsGet (repository_owner_login ev) (repository_name ev) (number ev)) w) \<and>
      owner prD = repository_owner_login ev \<and> repo prD = repository_name ev \<and>
      pull_number prD = number ev \<and>
      pulls_get e (calls w @ [PullsGet (repository_owner_login ev) (repository_name ev) (number ev)]) \<noteq> None)"
  by (auto simp: getPRDetails_def Let_def split: option.splits)

lemma main_review:
  "\<exists>pre. list_all is_fetch pre \<and>
     (calls (snd (main e ev w)) = calls w @ pre \<or>
      (\<exists>prD d cid w2. calls w2 = calls w @ pre \<and> main e ev w = review_diff e prD d cid w2))"
proof -
  let ?G = "PullsGet (repository_owner_login ev) (repository_name ev) (number ev)"
  from getPRDetails_cases [of e w ev] show ?thesis
  proof (elim disjE conjE exE)
    assume "getPRDetails e ev w = (Inl RequestRejected, send ?G w)"
    then have "calls (snd (main e ev w)) = calls w @ [?G]" by (simp add: main_def)
    moreover have "list_all is_fetch [?G]" by simp
    ultimately show ?thesis by blast
  next
    fix prD
    assume g: "getPRDetails e ev w = (Inr prD, send ?G w)"
    let ?w1 = "send ?G w"
    let ?D = "PullsGetDiff (owner prD) (repo prD) (pull_number prD)"
    let ?C = "ReposCompareCommits (owner prD) (repo prD) (before ev) (after ev)"
    consider (opened) "action ev = ''opened''"
      | (sync) "action ev \<noteq> ''opened''" "action ev = ''synchronize''"
      | (other) "action ev \<noteq> ''opened''" "action ev \<noteq> ''synchronize''"
      by blast
    then show ?thesis
    proof cases
      case opened
      show ?thesis
      proof (cases "pulls_get_diff e (calls (send ?D ?w1))")
        case None
        with g opened have "calls (snd (main e ev w)) = calls w @ [?G, ?D]"
          by (simp add: main_def getDiff_def Let_def)
        moreover have "list_all is_fetch [?G, ?D]" by simp
        ultimately show ?thesis by blast
      next
        case (Some d)
        with g opened
        have "main e ev w = review_diff e prD d (pull_request_head_sha ev) (send ?D ?w1)"
          by (simp add: main_def getDiff_def Let_def)
        moreover have "calls (send ?D ?w1) = calls w @ [?G, ?D]" by simp
        moreover have "list_all is_fetch [?G, ?D]" by simp
        ultimately show ?thesis by blast
      qed
    next
      case sync
      show ?thesis
      proof (cases "repos_compareCommits e (calls (send ?C ?w1))")
        case None
        with g sync have "calls (snd (main e ev w)) = calls w @ [?G, ?C]"
          by (simp add: main_def Let_def)
        moreover have "list_all is_fetch [?G, ?C]" by simp
        ultimately show ?thesis by blast
      next
        case (Some d)
        with g sync
        have "main e ev w = review_diff e prD d (after ev) (send ?C ?w1)"
          by (simp add: main_def Let_def)
        moreover have "calls (send ?C ?w1) = calls w @ [?G, ?C]" by simp
        moreover have "list_all is_fetch [?G, ?C]" by simp
        ultimately show ?thesis by blast
      qed
    next
      case other
      with g have "calls (snd (main e ev w)) = calls w @ [?G]"
        by (simp add: main_def)
      moreover have "list_all is_fetch [?G]" by simp
      ultimately show ?thesis by blast
    qed
  qed
qed

lemma main_old_review:
  "\<exists>pre. list_all is_fetch pre \<and>
     (calls (snd (main_old e ev w)) = calls w @ pre \<or>
      (\<exists>prD d w2. calls w2 = calls w @ pre \<and> main_old e ev w = review_diff_old e prD d w2))"
proof -
  let ?G = "PullsGet (repository_owner_login ev) (repository_name ev) (number ev)"
  from getPRDetails_cases [of e w ev] show ?thesis
  proof (elim disjE conjE exE)
    assume "getPRDetails e ev w = (Inl RequestRejected, send ?G w)"
    then have "calls (snd (main_old e ev w)) = calls w @ [?G]" by (simp add: main_old_def)
    moreover have "list_all is_fetch [?G]" by simp
    ultimately show ?thesis by blast
  next
    fix prD
    assume g: "getPRDetails e ev w = (Inr prD, send ?G w)"
    let ?w1 = "send ?G w"
    let ?D = "PullsGetDiff (owner prD) (repo prD) (pull_number prD)"
    let ?C = "ReposCompareCommits (owner prD) (repo prD) (before ev) (after ev)"
    consider (opened) "action ev = ''opened''"
      | (sync) "action ev \<noteq> ''opened''" "action ev = ''synchronize''"
      | (other) "action ev \<noteq> ''opened''" "action ev \<noteq> ''synchronize''"
      by blast
    then show ?thesis
    proof cases
      case opened
      show ?thesis
      proof (cases "pulls_get_diff e (calls (send ?D ?w1))")
        case None
        with g opened have "calls (snd (main_old e ev w)) = calls w @ [?G, ?D]"
          by (simp add: main_old_def getDiff_def Let_def)
        moreover have "list_all is_fetch [?G, ?D]" by simp
        ultimately show ?thesis by blast
      next
        case (Some d)
        with g opened
        have "main_old e ev w = review_diff_old e prD d (send ?D ?w1)"
          by (simp add: main_old_def getDiff_def Let_def)
        moreover have "calls (send ?D ?w1) = calls w @ [?G, ?D]" by simp
        moreover have "list_all is_fetch [?G, ?D]" by simp
        ultimately show ?thesis by blast
      qed
    next
      case sync
      show ?thesis
      proof (cases "repos_compareCommits e (calls (send ?C ?w1))")
        case None
        with g sync have "calls (snd (main_old e ev w)) = calls w @ [?G, ?C]"
          by (simp add: main_old_def Let_def)
        moreover have "list_all is_fetch [?G, ?C]" by simp
        ultimately show ?thesis by blast
      next
        case (Some d)
        with g sync
        have "main_old e ev w = review_diff_old e prD d (send ?C ?w1)"
          by (simp add: main_old_def Let_def)
        moreover have "calls (send ?C ?w1) = calls w @ [?G, ?C]" by simp
        moreover have "list_all is_fetch [?G, ?C]" by simp
        ultimately show ?thesis by blast
      qed
    next
      case other
      with g have "calls (snd (main_old e ev w)) = calls w @ [?G]"
        by (simp add: main_old_def)
      moreover have "list_all is_fetch [?G]" by simp
      ultimately show ?thesis by blast
    qed
  qed
qed

lemma is_fetch_not_chat: "list_all is_fetch pre \<Longrightarrow> ChatCompletionsCreate p \<notin> set pre"
  by (induction pre) auto

lemma main_prompts:
  "\<exists>new. calls (snd (main e ev w)) = calls w @ new \<and>
     (\<forall>p. ChatCompletionsCreate p \<in> set new \<longrightarrow>
        (\<exists>diff prDetails. \<exists>f \<in> set (parseDiff e diff).
           \<not> (\<exists>pattern \<in> set (excludePatterns e). minimatch e (to_or_empty f) pattern) \<and>
           (\<exists>ch \<in> set (chunks f). p = createPrompt e f ch prDetails)))"
proof -
  from main_review [of e ev w] obtain pre where pre: "list_all is_fetch pre"
    and m: "calls (snd (main e ev w)) = calls w @ pre \<or>
      (\<exists>prD d cid w2. calls w2 = calls w @ pre \<and> main e ev w = review_diff e prD d cid w2)"
    by blast
  from m show ?thesis
  proof (elim disjE exE conjE)
    assume "calls (snd (main e ev w)) = calls w @ pre"
    with is_fetch_not_chat [OF pre] show ?thesis by blast
  next
    fix prD d cid w2
    assume w2: "calls w2 = calls w @ pre" and r: "main e ev w = review_diff e prD d cid w2"
    from review_diff_calls [of e prD d cid w2] obtain n3 where
      n3: "calls (snd (review_diff e prD d cid w2)) = calls w2 @ n3"
          "\<forall>c \<in> set n3.
             c = PullsListReviewComments (owner prD) (repo prD) (pull_number prD) \<or>
             (\<exists>f \<in> set (filteredDiff e (parseDiff e d)). \<exists>ch \<in> set (chunks f).
                c = ChatCompletionsCreate (createPrompt e f ch prD)) \<or>
             (\<exists>b p l. c = PullsCreateReviewComment (owner prD) (repo prD) (pull_number prD)
                          b p l ''RIGHT'' cid)"
      by blast
    have A: "calls (snd (main e ev w)) = calls w @ (pre @ n3)"
      using r n3(1) w2 by simp
    have B: "\<forall>p. ChatCompletionsCreate p \<in> set (pre @ n3) \<longrightarrow>
        (\<exists>diff prDetails. \<exists>f \<in> set (parseDiff e diff).
           \<not> (\<exists>pattern \<in> set (excludePatterns e). minimatch e (to_or_empty f) pattern) \<and>
           (\<exists>ch \<in> set (chunks f). p = createPrompt e f ch prDetails))"
    proof (intro allI impI)
      fix p assume "ChatCompletionsCreate p \<in> set (pre @ n3)"
      with is_fetch_not_chat [OF pre] have "ChatCompletionsCreate p \<in> set n3" by auto
      with n3(2) obtain f ch where f: "f \<in> set (filteredDiff e (parseDiff e d))"
        and ch: "ch \<in> set (chunks f)" and pp: "p = createPrompt e f ch prD" by fastforce
      from f have fm: "f \<in> set (parseDiff e d)"
        and ne: "\<not> (\<exists>pattern \<in> set (excludePatterns e). minimatch e (to_or_empty f) pattern)"
        by (simp_all add: filteredDiff_iff)
      from ch pp have "\<exists>ch \<in> set (chunks f). p = createPrompt e f ch prD" by (rule bexI [rotated])
      with ne have "\<not> (\<exists>pattern \<in> set (excludePatterns e). minimatch e (to_or_empty f) pattern) \<and>
           (\<exists>ch \<in> set (chunks f). p = createPrompt e f ch prD)" by (rule conjI)
      with fm have "\<exists>f \<in> set (parseDiff e d).
           \<not> (\<exists>pattern \<in> set (excludePatterns e). minimatch e (to_or_empty f) pattern) \<and>
           (\<exists>ch \<in> set (chunks f). p = createPrompt e f ch prD)" by (rule bexI [rotated])
      then show "\<exists>diff prDetails. \<exists>f \<in> set (parseDiff e diff).
           \<not> (\<exists>pattern \<in> set (excludePatterns e). minimatch e (to_or_empty f) pattern) \<and>
           (\<exists>ch \<in> set (chunks f). p = createPrompt e f ch prDetails)" by (intro exI)
    qed
    from A B show ?thesis by blast
  qed
qed

lemma main_old_prompts:
  "\<exists>new. calls (snd (main_old e ev w)) = calls w @ new \<and>
     (\<forall>p. ChatCompletionsCreate p \<in> set new \<longrightarrow>
        (\<exists>diff prDetails. \<exists>f \<in> set (parseDiff e diff).
           \<not> (\<exists>pattern \<in> set (excludePatterns e). minimatch e (to_or_empty f) pattern) \<and>
           (\<exists>ch \<in> set (chunks f). p = createPrompt_old e f ch prDetails)))"
proof -
  from main_old_review [of e ev w] obtain pre where pre: "list_all is_fetch pre"
    and m: "calls (snd (main_old e ev w)) = calls w @ pre \<or>
      (\<exists>prD d w2. calls w2 = calls w @ pre \<and> main_old e ev w = review_diff_old e prD d w2)"
    by blast
  from m show ?thesis
  proof (elim disjE exE conjE)
    assume "calls (snd (main_old e ev w)) = calls w @ pre"
    with is_fetch_not_chat [OF pre] show ?thesis by blast
  next
    fix prD d w2
    assume w2: "calls w2 = calls w @ pre" and r: "main_old e ev w = review_diff_old e prD d w2"
    from review_diff_old_calls [of e prD d w2] obtain n3 where
      n3: "calls (snd (review_diff_old e prD d w2)) = calls w2 @ n3"
          "\<forall>c \<in> set n3.
             (\<exists>f \<in> set (filteredDiff e (parseDiff e d)). \<exists>ch \<in> set (chunks f).
                c = ChatCompletionsCreate (createPrompt_old e f ch prD)) \<or>
             (\<exists>cs. c = PullsCreateReview (owner prD) (repo prD) (pull_number prD) cs ''COMMENT'')"
      by blast
    have A: "calls (snd (main_old e ev w)) = calls w @ (pre @ n3)"
      using r n3(1) w2 by simp
    have B: "\<forall>p. ChatCompletionsCreate p \<in> set (pre @ n3) \<longrightarrow>
        (\<exists>diff prDetails. \<exists>f \<in> set (parseDiff e diff).
           \<not> (\<exists>pattern \<in> set (excludePatterns e). minimatch e (to_or_empty f) pattern) \<and>
           (\<exists>ch \<in> set (chunks f). p = createPrompt_old e f ch prDetails))"
    proof (intro allI impI)
      fix p assume "ChatCompletionsCreate p \<in> set (pre @ n3)"
      with is_fetch_not_chat [OF pre] have "ChatCompletionsCreate p \<in> set n3" by auto
      with n3(2) obtain f ch where f: "f \<in> set (filteredDiff e (parseDiff e d))"
        and ch: "ch \<in> set (chunks f)" and pp: "p = createPrompt_old e f ch prD" by fastforce
      from f have fm: "f \<in> set (parseDiff e d)"
        and ne: "\<not> (\<exists>pattern \<in> set (excludePatterns e). minimatch e (to_or_empty f) pattern)"
        by (simp_all add: filteredDiff_iff)
      from ch pp have "\<exists>ch \<in> set (chunks f). p = createPrompt_old e f ch prD" by (rule bexI [rotated])
      with ne have "\<not> (\<exists>pattern \<in> set (excludePatterns e). minimatch e (to_or_empty f) pattern) \<and>
           (\<exists>ch \<in> set (chunks f). p = createPrompt_old e f ch prD)" by (rule conjI)
      with fm have "\<exists>f \<in> set (parseDiff e d).
           \<not> (\<exists>pattern \<in> set (excludePatterns e). minimatch e (to_or_empty f) pattern) \<and>
           (\<exists>ch \<in> set (chunks f). p = createPrompt_old e f ch prD)" by (rule bexI [rotated])
      then show "\<exists>diff prDetails. \<exists>f \<in> set (parseDiff e diff).
           \<not> (\<exists>pattern \<in> set (excludePatterns e). minimatch e (to_or_empty f) pattern) \<and>
           (\<exists>ch \<in> set (chunks f). p = createPrompt_old e f ch prDetails)" by (intro exI)
    qed
    from A B show ?thesis by blast
  qed
qed

lemma is_fetch_not_publish:
  assumes "is_fetch c \<or> (\<exists>ow rp n. c = PullsListReviewComments ow rp n)"
  shows "\<forall>ow rp n b p l s cid. c \<noteq> PullsCreateReviewComment ow rp n b p l s cid"
    and "\<forall>ow rp n cs evn. c \<noteq> PullsCreateReview ow rp n cs evn"
  using assms by (cases c; simp)+

lemma main_deleted:
  assumes "\<forall>diff. \<forall>f \<in> set (parseDiff e diff). to f = Some ''/dev/null''"
  shows "\<exists>new. calls (snd (main e ev w)) = calls w @ new \<and>
           (\<forall>c \<in> set new. \<forall>ow rp n b p l s cid. c \<noteq> PullsCreateReviewComment ow rp n b p l s cid)"
proof -
  from main_review [of e ev w] obtain pre where pre: "list_all is_fetch pre"
    and m: "calls (snd (main e ev w)) = calls w @ pre \<or>
      (\<exists>prD d cid w2. calls w2 = calls w @ pre \<and> main e ev w = review_diff e prD d cid w2)"
    by blast
  from pre have p: "\<forall>c \<in> set pre. is_fetch c" by (simp add: list_all_iff)
  from m show ?thesis
  proof (elim disjE exE conjE)
    assume A: "calls (snd (main e ev w)) = calls w @ pre"
    have B: "\<forall>c \<in> set pre. \<forall>ow rp n b p l s cid. c \<noteq> PullsCreateReviewComment ow rp n b p l s cid"
    proof
      fix c assume "c \<in> set pre"
      with p have "is_fetch c \<or> (\<exists>ow rp n. c = PullsListReviewComments ow rp n)" by simp
      then show "\<forall>ow rp n b p l s cid. c \<noteq> PullsCreateReviewComment ow rp n b p l s cid"
        by (rule is_fetch_not_publish(1))
    qed
    from A B show ?thesis by (intro exI [of _ pre] conjI)
  next
    fix prD d cid w2
    assume w2: "calls w2 = calls w @ pre" and r: "main e ev w = review_diff e prD d cid w2"
    let ?l = "if d = [] then [] else [PullsListReviewComments (owner prD) (repo prD) (pull_number prD)]"
    from assms have "\<forall>f \<in> set (parseDiff e d). to f = Some ''/dev/null''" by blast
    from review_diff_deleted(1) [OF this, of prD cid w2] r w2
    have A: "calls (snd (main e ev w)) = calls w @ (pre @ ?l)"
      by simp
    have B: "\<forall>c \<in> set (pre @ ?l). \<forall>ow rp n b p l s cid. c \<noteq> PullsCreateReviewComment ow rp n b p l s cid"
    proof
      fix c assume "c \<in> set (pre @ ?l)"
      with p have "is_fetch c \<or> (\<exists>ow rp n. c = PullsListReviewComments ow rp n)"
        by (auto split: if_splits)
      then show "\<forall>ow rp n b p l s cid. c \<noteq> PullsCreateReviewComment ow rp n b p l s cid"
        by (rule is_fetch_not_publish(1))
    qed
    from A B show ?thesis by (intro exI [of _ "pre @ ?l"] conjI)
  qed
qed

lemma main_old_deleted:
  assumes "\<forall>diff. \<forall>f \<in> set (parseDiff e diff). to f = Some ''/dev/null''"
  shows "\<exists>new. calls (snd (main_old e ev w)) = calls w @ new \<and>
           (\<forall>c \<in> set new. \<forall>ow rp n cs evn. c \<noteq> PullsCreateReview ow rp n cs evn)"
proof -
  from main_old_review [of e ev w] obtain pre where pre: "list_all is_fetch pre"
    and m: "calls (snd (main_old e ev w)) = calls w @ pre \<or>
      (\<exists>prD d w2. calls w2 = calls w @ pre \<and> main_old e ev w = review_diff_old e prD d w2)"
    by blast
  from pre have p: "\<forall>c \<in> set pre. is_fetch c" by (simp add: list_all_iff)
  have B: "\<forall>c \<in> set pre. \<forall>ow rp n cs evn. c \<noteq> PullsCreateReview ow rp n cs evn"
  proof
    fix c assume "c \<in> set pre"
    with p have "is_fetch c \<or> (\<exists>ow rp n. c = PullsListReviewComments ow rp n)" by simp
    then show "\<forall>ow rp n cs evn. c \<noteq> PullsCreateReview ow rp n cs evn"
      by (rule is_fetch_not_publish(2))
  qed
  from m show ?thesis
  proof (elim disjE exE conjE)
    assume A: "calls (snd (main_old e ev w)) = calls w @ pre"
    from A B show ?thesis by (intro exI [of _ pre] conjI)
  next
    fix prD d w2
    assume w2: "calls w2 = calls w @ pre" and r: "main_old e ev w = review_diff_old e prD d w2"
    from assms have "\<forall>f \<in> set (parseDiff e d). to f = Some ''/dev/null''" by blast
    from review_diff_deleted(2) [OF this, of prD w2] r w2
    have A: "calls (snd (main_old e ev w)) = calls w @ pre" by simp
    from A B show ?thesis by (intro exI [of _ pre] conjI)
  qed
qed

section \<open>Exclusion Filter and deleted files: claims\<close>

text \<open>
  C8. The files that are analysed are those of the parsed diff, in their order, whose
  target path (the empty string when there is none) matches none of the patterns, the
  patterns being the trimmed pieces of the \<open>exclude\<close> input between its commas; and
  every prompt that a run sends to the completion API is built from a chunk of such a
  file, in both variants. The glob semantics is \<open>minimatch\<close>'s, a parameter here.
\<close>

theorem excluded_files_are_never_analysed:
  "filteredDiff e parsedDiff
     = filter (\<lambda>f. \<not> (\<exists>pattern \<in> set (excludePatterns e). minimatch e (to_or_empty f) pattern))
         parsedDiff \<and>
   excludePatterns e = map trim (split CHR '','' (exclude e)) \<and>
   join '','' (split CHR '','' (exclude e)) = exclude e \<and>
   (\<forall>x \<in> set (split CHR '','' (exclude e)). CHR '','' \<notin> set x) \<and>
   (\<exists>new. calls (snd (main e ev w)) = calls w @ new \<and>
      (\<forall>p. ChatCompletionsCreate p \<in> set new \<longrightarrow>
         (\<exists>diff prDetails. \<exists>f \<in> set (parseDiff e diff).
            \<not> (\<exists>pattern \<in> set (excludePatterns e). minimatch e (to_or_empty f) pattern) \<and>
            (\<exists>ch \<in> set (chunks f). p = createPrompt e f ch prDetails)))) \<and>
   (\<exists>new. calls (snd (main_old e ev w)) = calls w @ new \<and>
      (\<forall>p. ChatCompletionsCreate p \<in> set new \<longrightarrow>
         (\<exists>diff prDetails. \<exists>f \<in> set (parseDiff e diff).
            \<not> (\<exists>pattern \<in> set (excludePatterns e). minimatch e (to_or_empty f) pattern) \<and>
            (\<exists>ch \<in> set (chunks f). p = createPrompt_old e f ch prDetails))))"
proof -
  have 1: "excludePatterns e = map trim (split CHR '','' (exclude e))"
    by (simp add: excludePatterns_def)
  have 2: "join '','' (split CHR '','' (exclude e)) = exclude e"
    by (rule join_split)
  have 3: "\<forall>x \<in> set (split CHR '','' (exclude e)). CHR '','' \<notin> set x"
    using split_no_sep by blast
  from filteredDiff_iff [of e parsedDiff] 1 2 3 main_prompts [of e ev w] main_old_prompts [of e ev w]
  show ?thesis by (intro conjI)
qed

theorem excluded_files_are_never_analysed_witness:
  "excludePatterns sample_env = [''dist/out.js'', ''package-lock.json''] \<and>
   parseDiff sample_env ''diff --git'' = [\<lparr>to = Some ''package-lock.json'', chunks = []\<rparr>, sample_file] \<and>
   filteredDiff sample_env (parseDiff sample_env ''diff --git'') = [sample_file] \<and>
   calls (snd (main sample_env sample_push empty_world))
     = [PullsGet ''acme'' ''shop'' 7,
        ReposCompareCommits ''acme'' ''shop'' ''aaa111'' ''bbb222'',
        PullsListReviewComments ''acme'' ''shop'' 7,
        ChatCompletionsCreate (createPrompt sample_env sample_file sample_chunk sample_prDetails),
        PullsCreateReviewComment ''acme'' ''shop'' 7 ''avoid magic number'' ''src/limit.ts'' 42 ''RIGHT'' ''bbb222'']"
proof -
  note t = excluded_files_are_never_analysed [of sample_env "parseDiff sample_env ''diff --git''"
      sample_push empty_world]
  from t have "excludePatterns sample_env = map trim (split CHR '','' (exclude sample_env))"
    by (elim conjE)
  then have p: "excludePatterns sample_env = [''dist/out.js'', ''package-lock.json'']"
    by (simp add: sample_env_def trim_def is_space_def)
  have d: "parseDiff sample_env ''diff --git'' = [\<lparr>to = Some ''package-lock.json'', chunks = []\<rparr>, sample_file]"
    by (simp add: sample_env_def)
  have m: "minimatch sample_env = (\<lambda>p pattern. p = pattern)"
    by (simp add: sample_env_def)
  from t have "filteredDiff sample_env (parseDiff sample_env ''diff --git'')
     = filter (\<lambda>f. \<not> (\<exists>pattern \<in> set (excludePatterns sample_env).
                        minimatch sample_env (to_or_empty f) pattern))
         (parseDiff sample_env ''diff --git'')"
    by (elim conjE)
  then have f: "filteredDiff sample_env (parseDiff sample_env ''diff --git'') = [sample_file]"
    unfolding d p m by (simp add: to_or_empty_def sample_file_def)
  have g: "getPRDetails sample_env sample_push empty_world
             = (Inr sample_prDetails, send (PullsGet ''acme'' ''shop'' 7) empty_world)"
    by (simp add: getPRDetails_def sample_env_def sample_push_def sample_prDetails_def Let_def)
  have "main sample_env sample_push empty_world
          = review_diff sample_env sample_prDetails ''diff --git a/src/limit.ts b/src/limit.ts'' ''bbb222''
              (send (ReposCompareCommits ''acme'' ''shop'' ''aaa111'' ''bbb222'')
                 (send (PullsGet ''acme'' ''shop'' 7) empty_world))"
    unfolding main_def g
    by (simp add: sample_push_def sample_prDetails_def Let_def) (simp add: sample_env_def)
  with sample_review_diff [of "''diff --git a/src/limit.ts b/src/limit.ts''" "''bbb222''"]
  have c: "calls (snd (main sample_env sample_push empty_world))
     = [PullsGet ''acme'' ''shop'' 7,
        ReposCompareCommits ''acme'' ''shop'' ''aaa111'' ''bbb222'',
        PullsListReviewComments ''acme'' ''shop'' 7,
        ChatCompletionsCreate (createPrompt sample_env sample_file sample_chunk sample_prDetails),
        PullsCreateReviewComment ''acme'' ''shop'' 7 ''avoid magic number'' ''src/limit.ts'' 42 ''RIGHT'' ''bbb222'']"
    by (simp add: empty_world_def)
  from p d f c show ?thesis by (intro conjI)
qed

text \<open>
  C9. When every file of the parsed diff has the target path \<open>/dev/null\<close>, the analysis
  returns the empty comment list without sending anything, and the rest of the run sends
  no request but the listing of the existing comments (none at all in the older variant);
  a run whose diffs have such files only sends no request that publishes.
\<close>

theorem deleted_files_are_not_reviewed:
  "((\<forall>f \<in> set parsedDiff. to f = Some ''/dev/null'') \<longrightarrow>
      analyzeCode e parsedDiff prDetails existingComments w = (Inr [], w) \<and>
      analyzeCode_old e parsedDiff prDetails w = (Inr [], w)) \<and>
   ((\<forall>f \<in> set (parseDiff e diff). to f = Some ''/dev/null'') \<longrightarrow>
      calls (snd (review_diff e prDetails diff cid w))
        = (if diff = [] then calls w
           else calls w @ [PullsListReviewComments (owner prDetails) (repo prDetails) (pull_number prDetails)]) \<and>
      calls (snd (review_diff_old e prDetails diff w)) = calls w) \<and>
   ((\<forall>diff. \<forall>f \<in> set (parseDiff e diff). to f = Some ''/dev/null'') \<longrightarrow>
      (\<exists>new. calls (snd (main e ev w)) = calls w @ new \<and>
         (\<forall>c \<in> set new. \<forall>ow rp n b p l s cid. c \<noteq> PullsCreateReviewComment ow rp n b p l s cid)) \<and>
      (\<exists>new. calls (snd (main_old e ev w)) = calls w @ new \<and>
         (\<forall>c \<in> set new. \<forall>ow rp n cs evn. c \<noteq> PullsCreateReview ow rp n cs evn)))"
proof -
  have 1: "(\<forall>f \<in> set parsedDiff. to f = Some ''/dev/null'') \<longrightarrow>
      analyzeCode e parsedDiff prDetails existingComments w = (Inr [], w) \<and>
      analyzeCode_old e parsedDiff prDetails w = (Inr [], w)"
    using analyze_files_deleted [of parsedDiff e prDetails existingComments "[]" w]
      analyze_files_old_deleted [of parsedDiff e prDetails "[]" w]
    by (simp add: analyzeCode_def analyzeCode_old_def)
  have 2: "(\<forall>f \<in> set (parseDiff e diff). to f = Some ''/dev/null'') \<longrightarrow>
      calls (snd (review_diff e prDetails diff cid w))
        = (if diff = [] then calls w
           else calls w @ [PullsListReviewComments (owner prDetails) (repo prDetails) (pull_number prDetails)]) \<and>
      calls (snd (review_diff_old e prDetails diff w)) = calls w"
    using review_diff_deleted(1) [of e diff prDetails cid w] review_diff_deleted(2) [of e diff prDetails w]
    by simp
  have 3: "(\<forall>diff. \<forall>f \<in> set (parseDiff e diff). to f = Some ''/dev/null'') \<longrightarrow>
      (\<exists>new. calls (snd (main e ev w)) = calls w @ new \<and>
         (\<forall>c \<in> set new. \<forall>ow rp n b p l s cid. c \<noteq> PullsCreateReviewComment ow rp n b p l s cid)) \<and>
      (\<exists>new. calls (snd (main_old e ev w)) = calls w @ new \<and>
         (\<forall>c \<in> set new. \<forall>ow rp n cs evn. c \<noteq> PullsCreateReview ow rp n cs evn))"
  proof
    assume a: "\<forall>diff. \<forall>f \<in> set (parseDiff e diff). to f = Some ''/dev/null''"
    from main_deleted [OF a, of ev w] main_old_deleted [OF a, of ev w]
    show "(\<exists>new. calls (snd (main e ev w)) = calls w @ new \<and>
         (\<forall>c \<in> set new. \<forall>ow rp n b p l s cid. c \<noteq> PullsCreateReviewComment ow rp n b p l s cid)) \<and>
      (\<exists>new. calls (snd (main_old e ev w)) = calls w @ new \<and>
         (\<forall>c \<in> set new. \<forall>ow rp n cs evn. c \<noteq> PullsCreateReview ow rp n cs evn))"
      by (rule conjI)
  qed
  from 1 2 3 show ?thesis by (intro conjI)
qed

theorem deleted_files_are_not_reviewed_witness:
  "analyzeCode deleting_env [deleted_file] sample_prDetails [] empty_world = (Inr [], empty_world) \<and>
   calls (snd (review_diff deleting_env sample_prDetails ''diff --git'' ''c0ffee'' empty_world))
     = [PullsListReviewComments ''acme'' ''shop'' 7] \<and>
   calls (snd (review_diff_old deleting_env sample_prDetails ''diff --git'' empty_world)) = [] \<and>
   calls (snd (main deleting_env sample_push empty_world))
     = [PullsGet ''acme'' ''shop'' 7,
        ReposCompareCommits ''acme'' ''shop'' ''aaa111'' ''bbb222'',
        PullsListReviewComments ''acme'' ''shop'' 7]"
proof -
  let ?w2 = "send (ReposCompareCommits ''acme'' ''shop'' ''aaa111'' ''bbb222'')
               (send (PullsGet ''acme'' ''shop'' 7) empty_world)"
  have 1: "\<forall>f \<in> set [deleted_file]. to f = Some ''/dev/null''"
    by (simp add: deleted_file_def)
  have 2: "\<forall>f \<in> set (parseDiff deleting_env d). to f = Some ''/dev/null''" for d
    by (simp add: deleting_env_def deleted_file_def)
  note t = deleted_files_are_not_reviewed [where parsedDiff = "[deleted_file]" and e = deleting_env
      and prDetails = sample_prDetails and existingComments = "[]" and w = empty_world
      and diff = "''diff --git''" and cid = "''c0ffee''" and ev = sample_push]
  note t' = deleted_files_are_not_reviewed [where parsedDiff = "[deleted_file]" and e = deleting_env
      and prDetails = sample_prDetails and existingComments = "[]" and w = ?w2
      and diff = "''diff --git a/src/limit.ts b/src/limit.ts''" and cid = "''bbb222''" and ev = sample_push]
  note a0 = t [THEN conjunct1, THEN mp, OF 1]
  note b0 = t [THEN conjunct2, THEN conjunct1, THEN mp, OF 2]
  note c0 = t' [THEN conjunct2, THEN conjunct1, THEN mp, OF 2]
  from a0 have a: "analyzeCode deleting_env [deleted_file] sample_prDetails [] empty_world
                      = (Inr [], empty_world)"
    by (rule conjunct1)
  from b0 have b: "calls (snd (review_diff deleting_env sample_prDetails ''diff --git'' ''c0ffee'' empty_world))
     = [PullsListReviewComments ''acme'' ''shop'' 7]"
    and b': "calls (snd (review_diff_old deleting_env sample_prDetails ''diff --git'' empty_world)) = []"
    by (simp_all add: sample_prDetails_def empty_world_def)
  have g: "getPRDetails deleting_env sample_push empty_world
             = (Inr sample_prDetails, send (PullsGet ''acme'' ''shop'' 7) empty_world)"
    by (simp add: getPRDetails_def deleting_env_def sample_env_def sample_push_def sample_prDetails_def
        Let_def)
  have m: "main deleting_env sample_push empty_world
          = review_diff deleting_env sample_prDetails ''diff --git a/src/limit.ts b/src/limit.ts'' ''bbb222'' ?w2"
    unfolding main_def g
    by (simp add: sample_push_def sample_prDetails_def Let_def) (simp add: deleting_env_def sample_env_def)
  from c0 [THEN conjunct1] have c: "calls (snd (main deleting_env sample_push empty_world))
     = [PullsGet ''acme'' ''shop'' 7,
        ReposCompareCommits ''acme'' ''shop'' ''aaa111'' ''bbb222'',
        PullsListReviewComments ''acme'' ''shop'' 7]"
    unfolding m by (simp add: sample_prDetails_def empty_world_def)
  from a b b' c show ?thesis by (intro conjI)
qed

section \<open>Diff retrieval: properties\<close>

text \<open>
  C5. On a \<open>synchronize\<close> event \<open>main\<close> of \<open>src/main.ts\<close> never asks for the diff of
  the pull request; once the metadata request has succeeded it sends a compare-commits
  request with the event's \<open>before\<close> as base and \<open>after\<close> as head, whose answer is the
  diff that is reviewed; and every review comment it posts carries \<open>after\<close> as its
  commit identifier (and \<open>RIGHT\<close> as its side).
\<close>

theorem synchronize_compares_before_and_after:
  assumes "action ev = ''synchronize''"
  shows "\<exists>new. calls (snd (main e ev w)) = calls w @ new \<and>
     (\<forall>c \<in> set new.
        (\<forall>ow rp n. c \<noteq> PullsGetDiff ow rp n) \<and>
        (\<forall>ow rp b h. c = ReposCompareCommits ow rp b h \<longrightarrow>
           ow = repository_owner_login ev \<and> rp = repository_name ev \<and> b = before ev \<and> h = after ev) \<and>
        (\<forall>ow rp n b p l s cid. c = PullsCreateReviewComment ow rp n b p l s cid \<longrightarrow>
           s = ''RIGHT'' \<and> cid = after ev)) \<and>
     (pulls_get e (calls w @ [PullsGet (repository_owner_login ev) (repository_name ev) (number ev)]) \<noteq> None \<longrightarrow>
        take 2 new = [PullsGet (repository_owner_login ev) (repository_name ev) (number ev),
                      ReposCompareCommits (repository_owner_login ev) (repository_name ev)
                        (before ev) (after ev)]) \<and>
     (\<forall>prD w1 d. getPRDetails e ev w = (Inr prD, w1) \<and>
        repos_compareCommits e
          (calls w1 @ [ReposCompareCommits (owner prD) (repo prD) (before ev) (after ev)]) = Some d \<longrightarrow>
        main e ev w = review_diff e prD d (after ev)
                        (send (ReposCompareCommits (owner prD) (repo prD) (before ev) (after ev)) w1))"
proof -
  let ?G = "PullsGet (repository_owner_login ev) (repository_name ev) (number ev)"
  let ?C = "ReposCompareCommits (repository_owner_login ev) (repository_name ev) (before ev) (after ev)"
  let ?ok = "\<lambda>c. (\<forall>ow rp n. c \<noteq> PullsGetDiff ow rp n) \<and>
        (\<forall>ow rp b h. c = ReposCompareCommits ow rp b h \<longrightarrow>
           ow = repository_owner_login ev \<and> rp = repository_name ev \<and> b = before ev \<and> h = after ev) \<and>
        (\<forall>ow rp n b p l s cid. c = PullsCreateReviewComment ow rp n b p l s cid \<longrightarrow>
           s = ''RIGHT'' \<and> cid = after ev)"
  have okG: "?ok ?G" by simp
  have okC: "?ok ?C" by simp
  have ns: "''synchronize'' \<noteq> ''opened''" by simp
  from getPRDetails_cases [of e w ev] show ?thesis
  proof (elim disjE conjE exE)
    assume n: "pulls_get e (calls w @ [?G]) = None"
      and g: "getPRDetails e ev w = (Inl RequestRejected, send ?G w)"
    have A: "calls (snd (main e ev w)) = calls w @ [?G]"
      using g by (simp add: main_def)
    have B: "\<forall>c \<in> set [?G]. ?ok c" using okG by simp
    have C: "pulls_get e (calls w @ [?G]) \<noteq> None \<longrightarrow> take 2 [?G] = [?G, ?C]"
      using n by simp
    have D: "\<forall>prD w1 d. getPRDetails e ev w = (Inr prD, w1) \<and>
        repos_compareCommits e
          (calls w1 @ [ReposCompareCommits (owner prD) (repo prD) (before ev) (after ev)]) = Some d \<longrightarrow>
        main e ev w = review_diff e prD d (after ev)
                        (send (ReposCompareCommits (owner prD) (repo prD) (before ev) (after ev)) w1)"
      using g by simp
    show ?thesis
      using A B C D by - (rule exI [of _ "[?G]"], intro conjI, assumption+)
  next
    fix prD
    assume g: "getPRDetails e ev w = (Inr prD, send ?G w)"
      and o: "owner prD = repository_owner_login ev" "repo prD = repository_name ev"
        "pull_number prD = number ev"
      and s: "pulls_get e (calls w @ [?G]) \<noteq> None"
    let ?w2 = "send ?C (send ?G w)"
    have m: "main e ev w =
        (case repos_compareCommits e (calls ?w2) of
           None \<Rightarrow> (Inl RequestRejected, ?w2)
         | Some data \<Rightarrow> review_diff e prD data (after ev) ?w2)"
      using g o assms ns by (simp add: main_def Let_def)
    have cw2: "calls ?w2 = calls w @ [?G, ?C]" by simp
    show ?thesis
    proof (cases "repos_compareCommits e (calls ?w2)")
      case None
      have A: "calls (snd (main e ev w)) = calls w @ [?G, ?C]"
        using m None by simp
      have B: "\<forall>c \<in> set [?G, ?C]. ?ok c" using okG okC by simp
      have C: "pulls_get e (calls w @ [?G]) \<noteq> None \<longrightarrow> take 2 [?G, ?C] = [?G, ?C]"
        by simp
      have D: "\<forall>prD w1 d. getPRDetails e ev w = (Inr prD, w1) \<and>
        repos_compareCommits e
          (calls w1 @ [ReposCompareCommits (owner prD) (repo prD) (before ev) (after ev)]) = Some d \<longrightarrow>
        main e ev w = review_diff e prD d (after ev)
                        (send (ReposCompareCommits (owner prD) (repo prD) (before ev) (after ev)) w1)"
        using g o None cw2 by simp
      show ?thesis
        using A B C D by - (rule exI [of _ "[?G, ?C]"], intro conjI, assumption+)
    next
      case (Some d)
      with m have md: "main e ev w = review_diff e prD d (after ev) ?w2" by simp
      from review_diff_calls [of e prD d "after ev" ?w2] obtain n3 where
        n3: "calls (snd (review_diff e prD d (after ev) ?w2)) = calls ?w2 @ n3"
            "\<forall>c \<in> set n3.
               c = PullsListReviewComments (owner prD) (repo prD) (pull_number prD) \<or>
               (\<exists>f \<in> set (filteredDiff e (parseDiff e d)). \<exists>ch \<in> set (chunks f).
                  c = ChatCompletionsCreate (createPrompt e f ch prD)) \<or>
               (\<exists>b p l. c = PullsCreateReviewComment (owner prD) (repo prD) (pull_number prD)
                            b p l ''RIGHT'' (after ev))"
        by blast
      have A: "calls (snd (main e ev w)) = calls w @ ([?G, ?C] @ n3)"
        using md n3(1) by simp
      have ok3: "?ok c" if "c \<in> set n3" for c
      proof -
        from that n3(2) consider
            "c = PullsListReviewComments (owner prD) (repo prD) (pull_number prD)"
          | p where "c = ChatCompletionsCreate p"
          | b p l where "c = PullsCreateReviewComment (owner prD) (repo prD) (pull_number prD)
                               b p l ''RIGHT'' (after ev)"
          by blast
        then show ?thesis by cases simp_all
      qed
      have B: "\<forall>c \<in> set ([?G, ?C] @ n3). ?ok c"
      proof
        fix c assume "c \<in> set ([?G, ?C] @ n3)"
        then consider "c = ?G" | "c = ?C" | "c \<in> set n3" by auto
        then show "?ok c"
        proof cases
          case 1
          show ?thesis unfolding 1 by (rule okG)
        next
          case 2
          show ?thesis unfolding 2 by (rule okC)
        next
          case 3
          then show ?thesis by (rule ok3)
        qed
      qed
      have C: "pulls_get e (calls w @ [?G]) \<noteq> None \<longrightarrow> take 2 ([?G, ?C] @ n3) = [?G, ?C]"
        by simp
      have D: "\<forall>prD w1 d. getPRDetails e ev w = (Inr prD, w1) \<and>
        repos_compareCommits e
          (calls w1 @ [ReposCompareCommits (owner prD) (repo prD) (before ev) (after ev)]) = Some d \<longrightarrow>
        main e ev w = review_diff e prD d (after ev)
                        (send (ReposCompareCommits (owner prD) (repo prD) (before ev) (after ev)) w1)"
        using g o Some cw2 md by simp
      show ?thesis
        using A B C D by - (rule exI [of _ "[?G, ?C] @ n3"], intro conjI, assumption+)
    qed
  qed
qed

theorem synchronize_compares_before_and_after_witness:
  "action sample_push = ''synchronize'' \<and>
   calls (snd (main sample_env sample_push empty_world))
     = [PullsGet ''acme'' ''shop'' 7,
        ReposCompareCommits ''acme'' ''shop'' ''aaa111'' ''bbb222'',
        PullsListReviewComments ''acme'' ''shop'' 7,
        ChatCompletionsCreate (createPrompt sample_env sample_file sample_chunk sample_prDetails),
        PullsCreateReviewComment ''acme'' ''shop'' 7 ''avoid magic number'' ''src/limit.ts'' 42 ''RIGHT'' ''bbb222'']"
proof -
  have a: "action sample_push = ''synchronize''" by (simp add: sample_push_def)
  have g: "getPRDetails sample_env sample_push empty_world
             = (Inr sample_prDetails, send (PullsGet ''acme'' ''shop'' 7) empty_world)"
    by (simp add: getPRDetails_def sample_env_def sample_push_def sample_prDetails_def Let_def)
  have c: "repos_compareCommits sample_env cs = Some ''diff --git a/src/limit.ts b/src/limit.ts''" for cs
    by (simp add: sample_env_def)
  have f: "before sample_push = ''aaa111''" "after sample_push = ''bbb222''"
    "owner sample_prDetails = ''acme''" "repo sample_prDetails = ''shop''"
    by (simp_all add: sample_push_def sample_prDetails_def)
  from synchronize_compares_before_and_after [OF a, of sample_env empty_world]
  have D: "\<forall>prD w1 d. getPRDetails sample_env sample_push empty_world = (Inr prD, w1) \<and>
        repos_compareCommits sample_env
          (calls w1 @ [ReposCompareCommits (owner prD) (repo prD) (before sample_push) (after sample_push)]) = Some d \<longrightarrow>
        main sample_env sample_push empty_world = review_diff sample_env prD d (after sample_push)
          (send (ReposCompareCommits (owner prD) (repo prD) (before sample_push) (after sample_push)) w1)"
    by (elim exE conjE)
  have "main sample_env sample_push empty_world
          = review_diff sample_env sample_prDetails ''diff --git a/src/limit.ts b/src/limit.ts'' ''bbb222''
              (send (ReposCompareCommits ''acme'' ''shop'' ''aaa111'' ''bbb222'')
                 (send (PullsGet ''acme'' ''shop'' 7) empty_world))"
    using D [rule_format, of sample_prDetails "send (PullsGet ''acme'' ''shop'' 7) empty_world"
        "''diff --git a/src/limit.ts b/src/limit.ts''"] g c
    by (simp add: f)
  with sample_review_diff [of "''diff --git a/src/limit.ts b/src/limit.ts''" "''bbb222''"] a
  show ?thesis by (simp add: empty_world_def)
qed

section \<open>Existing comments: properties\<close>






section \<open>Prompt Builder: properties\<close>

lemma sublist_join:
  "l \<in> set ls \<Longrightarrow> sublist x l \<Longrightarrow> sublist x (join sep ls)"
proof (induction sep ls rule: join.induct)
  case (1 sep)
  then show ?case by simp
next
  case (2 sep y)
  then show ?case by simp
next
  case (3 sep y z zs)
  show ?case
  proof (cases "l = y")
    case True
    with "3.prems"(2) obtain ps ss where "y = ps @ x @ ss" by (auto simp: sublist_def)
    then have "join sep (y # z # zs) = ps @ x @ (ss @ sep @ join sep (z # zs))" by simp
    then show ?thesis unfolding sublist_def by blast
  next
    case False
    with "3.prems" have "l \<in> set (z # zs)" by simp
    from "3.IH" [OF this "3.prems"(2)] obtain ps ss where "join sep (z # zs) = ps @ x @ ss"
      by (auto simp: sublist_def)
    then have "join sep (y # z # zs) = (y @ sep @ ps) @ x @ ss" by simp
    then show ?thesis unfolding sublist_def by blast
  qed
qed

lemma sublist_same: "sublist x x"
  unfolding sublist_def by (metis append_Nil append_Nil2)

lemma annotate_sides:
  "(is_deletion c \<longrightarrow> (\<exists>n. old_side c = Some n \<and> annotate c = show_int n @ '' '' @ change_content c)) \<and>
   (\<not> is_deletion c \<longrightarrow> (\<exists>n. new_side c = Some n \<and> annotate c = show_int n @ '' '' @ change_content c))"
  by (cases c) (simp_all add: annotate_def)

lemma createPrompt_includes:
  \<open>sublist (''Your task is to review pull requests for '' @ FRAMEWORK e @ '' code. Instructions:'')
     (createPrompt e file chunk pr)\<close>
  \<open>sublist ''{"reviews": [{"lineNumber":  <line_number>, "reviewComment": "<review comment>"}]}''
     (createPrompt e file chunk pr)\<close>
  \<open>sublist (guidelines e) (createPrompt e file chunk pr)\<close>
  \<open>sublist (show_to file) (createPrompt e file chunk pr)\<close>
  \<open>sublist (title pr) (createPrompt e file chunk pr)\<close>
  \<open>sublist (description pr) (createPrompt e file chunk pr)\<close>
  \<open>sublist (content chunk) (createPrompt e file chunk pr)\<close>
  \<open>sublist (join [CHR 0x0A] (map annotate (changes chunk))) (createPrompt e file chunk pr)\<close>
  unfolding createPrompt_def
  subgoal by (rule sublist_join [of "''Your task is to review pull requests for '' @ FRAMEWORK e @ '' code. Instructions:''"], simp, rule sublist_same)
  subgoal by (rule sublist_join [of \<open>''- Provide the response in the following JSON format:  {"reviews": [{"lineNumber":  <line_number>, "reviewComment": "<review comment>"}]}''\<close>], simp, simp add: sublist_Cons_right)
  subgoal by (rule sublist_join [of "guidelines e"], simp, rule sublist_same)
  subgoal by (rule sublist_join [of \<open>''Review the following code diff in the file "'' @ show_to file @ ''" and take the pull request title and description into account when writing the response.''\<close>], simp, rule sublist_appendI)
  subgoal by (rule sublist_join [of "''Pull request title: '' @ title pr"], simp, rule sublist_append_leftI)
  subgoal by (rule sublist_join [of "description pr"], simp, rule sublist_same)
  subgoal by (rule sublist_join [of "content chunk"], simp, rule sublist_same)
  subgoal by (rule sublist_join [of "join [CHR 0x0A] (map annotate (changes chunk))"], simp, rule sublist_same)
  done

lemma createPrompt_old_includes:
  \<open>sublist (''Your task is to review a pull request for '' @ FRAMEWORK e @ '' code. Follow these instructions:'')
     (createPrompt_old e file chunk pr)\<close>
  \<open>sublist ''{"reviews": [{"lineNumber": <line_number>, "reviewComment": "<review comment>", "optimizedCode": "<optimized code>"}]}''
     (createPrompt_old e file chunk pr)\<close>
  \<open>sublist (guidelines_old e) (createPrompt_old e file chunk pr)\<close>
  \<open>sublist (show_to file) (createPrompt_old e file chunk pr)\<close>
  \<open>sublist (title pr) (createPrompt_old e file chunk pr)\<close>
  \<open>sublist (description pr) (createPrompt_old e file chunk pr)\<close>
  \<open>sublist (content chunk) (createPrompt_old e file chunk pr)\<close>
  \<open>sublist (join [CHR 0x0A] (map annotate (changes chunk))) (createPrompt_old e file chunk pr)\<close>
  unfolding createPrompt_old_def
  subgoal by (rule sublist_join [of "''Your task is to review a pull request for '' @ FRAMEWORK e @ '' code. Follow these instructions:''"], simp, rule sublist_same)
  subgoal by (rule sublist_join [of \<open>''- Provide your response in JSON format: {"reviews": [{"lineNumber": <line_number>, "reviewComment": "<review comment>", "optimizedCode": "<optimized code>"}]}''\<close>], simp, simp add: sublist_Cons_right)
  subgoal by (rule sublist_join [of "guidelines_old e"], simp, rule sublist_same)
  subgoal by (rule sublist_join [of \<open>''Review the following code diff in the file "'' @ show_to file @ ''", considering the pull request title and description for context:''\<close>], simp, rule sublist_appendI)
  subgoal by (rule sublist_join [of "''Pull request title: '' @ title pr"], simp, rule sublist_append_leftI)
  subgoal by (rule sublist_join [of "description pr"], simp, rule sublist_same)
  subgoal by (rule sublist_join [of "content chunk"], simp, rule sublist_same)
  subgoal by (rule sublist_join [of "join [CHR 0x0A] (map annotate (changes chunk))"], simp, rule sublist_same)
  done

lemma createPrompt_old_dimensions:
  \<open>sublist ''**Security**'' (createPrompt_old e file chunk pr)\<close>
  \<open>sublist ''**Performance**'' (createPrompt_old e file chunk pr)\<close>
  \<open>sublist ''**Maintainability**'' (createPrompt_old e file chunk pr)\<close>
  \<open>sublist ''**Best Practices**'' (createPrompt_old e file chunk pr)\<close>
  \<open>sublist ''**Testing**'' (createPrompt_old e file chunk pr)\<close>
  \<open>sublist ''**Documentation**'' (createPrompt_old e file chunk pr)\<close>
  unfolding createPrompt_old_def
  subgoal by (rule sublist_join [of "''  - **Security**: Look for vulnerabilities such as SQL injection, XSS, and insecure configurations.''"], simp, simp add: sublist_Cons_right)
  subgoal by (rule sublist_join [of "''  - **Performance**: Identify potential performance bottlenecks and suggest optimizations.''"], simp, simp add: sublist_Cons_right)
  subgoal by (rule sublist_join [of "''  - **Maintainability**: Ensure the code is easy to read and maintain. Suggest refactoring if necessary.''"], simp, simp add: sublist_Cons_right)
  subgoal by (rule sublist_join [of "''  - **Best Practices**: Ensure adherence to best practices specific to '' @ FRAMEWORK e @ '' and the overall project.''"], simp, simp add: sublist_Cons_right)
  subgoal by (rule sublist_join [of "''  - **Testing**: Verify that the code changes include appropriate tests. If not, suggest adding tests.''"], simp, simp add: sublist_Cons_right)
  subgoal by (rule sublist_join [of "''  - **Documentation**: Check if the code changes are well-documented. If not, suggest improvements in documentation.''"], simp, simp add: sublist_Cons_right)
  done


lemma sublist_chain: "sublist a b \<Longrightarrow> sublist b c \<Longrightarrow> sublist a c"
proof -
  assume "sublist a b" "sublist b c"
  then obtain p1 s1 p2 s2 where "b = p1 @ a @ s1" "c = p2 @ b @ s2"
    by (auto simp: sublist_def)
  then have "c = (p2 @ p1) @ a @ (s1 @ s2)" by simp
  then show ?thesis unfolding sublist_def by blast
qed

lemma annotated_line_included:
  assumes "c \<in> set (changes chunk)"
  shows "sublist (annotate c) (createPrompt e file chunk pr)"
    and "sublist (annotate c) (createPrompt_old e file chunk pr)"
proof -
  from assms have "annotate c \<in> set (map annotate (changes chunk))" by simp
  then have "sublist (annotate c) (join [CHR 0x0A] (map annotate (changes chunk)))"
    by (rule sublist_join) (rule sublist_same)
  then show "sublist (annotate c) (createPrompt e file chunk pr)"
    by (rule sublist_chain) (rule createPrompt_includes(8))
  from \<open>sublist (annotate c) (join [CHR 0x0A] (map annotate (changes chunk)))\<close>
  show "sublist (annotate c) (createPrompt_old e file chunk pr)"
    by (rule sublist_chain) (rule createPrompt_old_includes(8))
qed

text \<open>
  C7 (as amended). Both prompt builders depend on the environment through the framework
  label and the guideline text only. Each prompt contains its framing line, the JSON shape
  it asks for, the guideline text, the file's target path (printed \<open>undefined\<close> when there
  is none), the title and the description of the pull request, the chunk's header and the
  changes, one per line, each preceded by its line number: the old-side number for a
  deletion and the new-side number otherwise. The prompt of the older variant also lists
  the six review dimensions by name.
\<close>

theorem createPrompt_contents:
  \<open>(FRAMEWORK e = FRAMEWORK e' \<and> guidelines e = guidelines e' \<longrightarrow>
      createPrompt e file chunk pr = createPrompt e' file chunk pr) \<and>
   (FRAMEWORK e = FRAMEWORK e' \<and> guidelines_old e = guidelines_old e' \<longrightarrow>
      createPrompt_old e file chunk pr = createPrompt_old e' file chunk pr) \<and>
   sublist (''Your task is to review pull requests for '' @ FRAMEWORK e @ '' code. Instructions:'')
     (createPrompt e file chunk pr) \<and>
   sublist ''{"reviews": [{"lineNumber":  <line_number>, "reviewComment": "<review comment>"}]}''
     (createPrompt e file chunk pr) \<and>
   sublist (guidelines e) (createPrompt e file chunk pr) \<and>
   sublist (show_to file) (createPrompt e file chunk pr) \<and>
   sublist (title pr) (createPrompt e file chunk pr) \<and>
   sublist (description pr) (createPrompt e file chunk pr) \<and>
   sublist (content chunk) (createPrompt e file chunk pr) \<and>
   sublist (join [CHR 0x0A] (map annotate (changes chunk))) (createPrompt e file chunk pr) \<and>
   sublist (''Your task is to review a pull request for '' @ FRAMEWORK e @ '' code. Follow these instructions:'')
     (createPrompt_old e file chunk pr) \<and>
   sublist ''{"reviews": [{"lineNumber": <line_number>, "reviewComment": "<review comment>", "optimizedCode": "<optimized code>"}]}''
     (createPrompt_old e file chunk pr) \<and>
   sublist (guidelines_old e) (createPrompt_old e file chunk pr) \<and>
   sublist (show_to file) (createPrompt_old e file chunk pr) \<and>
   sublist (title pr) (createPrompt_old e file chunk pr) \<and>
   sublist (description pr) (createPrompt_old e file chunk pr) \<and>
   sublist (content chunk) (createPrompt_old e file chunk pr) \<and>
   sublist (join [CHR 0x0A] (map annotate (changes chunk))) (createPrompt_old e file chunk pr) \<and>
   sublist ''**Security**'' (createPrompt_old e file chunk pr) \<and>
   sublist ''**Performance**'' (createPrompt_old e file chunk pr) \<and>
   sublist ''**Maintainability**'' (createPrompt_old e file chunk pr) \<and>
   sublist ''**Best Practices**'' (createPrompt_old e file chunk pr) \<and>
   sublist ''**Testing**'' (createPrompt_old e file chunk pr) \<and>
   sublist ''**Documentation**'' (createPrompt_old e file chunk pr) \<and>
   (\<forall>c \<in> set (changes chunk).
      sublist (annotate c) (createPrompt e file chunk pr) \<and>
      sublist (annotate c) (createPrompt_old e file chunk pr)) \<and>
   (is_deletion c \<longrightarrow>
      (\<exists>n. old_side c = Some n \<and> annotate c = show_int n @ '' '' @ change_content c)) \<and>
   (\<not> is_deletion c \<longrightarrow>
      (\<exists>n. new_side c = Some n \<and> annotate c = show_int n @ '' '' @ change_content c)) \<and>
   (to file = Some p \<longrightarrow> show_to file = p) \<and>
   (to file = None \<longrightarrow> show_to file = ''undefined'')\<close>
proof -
  have 1: "FRAMEWORK e = FRAMEWORK e' \<and> guidelines e = guidelines e' \<longrightarrow>
      createPrompt e file chunk pr = createPrompt e' file chunk pr"
    by (simp add: createPrompt_def)
  have 2: "FRAMEWORK e = FRAMEWORK e' \<and> guidelines_old e = guidelines_old e' \<longrightarrow>
      createPrompt_old e file chunk pr = createPrompt_old e' file chunk pr"
    by (simp add: createPrompt_old_def)
  have 3: "\<forall>c \<in> set (changes chunk).
      sublist (annotate c) (createPrompt e file chunk pr) \<and>
      sublist (annotate c) (createPrompt_old e file chunk pr)"
    using annotated_line_included by blast
  have 4: "to file = Some p \<longrightarrow> show_to file = p" "to file = None \<longrightarrow> show_to file = ''undefined''"
    by (simp_all add: show_to_def)
  note 5 = annotate_sides [of c, THEN conjunct1] annotate_sides [of c, THEN conjunct2]
  show ?thesis
    by (intro conjI 1 2 3 4 5 createPrompt_includes createPrompt_old_includes createPrompt_old_dimensions)
qed

theorem createPrompt_contents_witness:
  "annotate (DeleteChange ''-const n = 7;'' 41) = ''41 -const n = 7;'' \<and>
   annotate (NormalChange '' const a = 1;'' 39 40) = ''40  const a = 1;'' \<and>
   sublist ''42 +const limit = 42;'' (createPrompt sample_env sample_file sample_chunk sample_prDetails) \<and>
   sublist ''42 +const limit = 42;'' (createPrompt_old sample_env sample_file sample_chunk sample_prDetails) \<and>
   sublist ''src/limit.ts'' (createPrompt sample_env sample_file sample_chunk sample_prDetails) \<and>
   createPrompt (sample_env\<lparr>exclude := []\<rparr>) sample_file sample_chunk sample_prDetails
     = createPrompt sample_env sample_file sample_chunk sample_prDetails"
proof -
  note t = createPrompt_contents [of sample_env sample_env sample_file sample_chunk sample_prDetails _
      "''src/limit.ts''"]
  have d: "show_int 41 = ''41''" "show_int 40 = ''40''" "show_int 42 = ''42''"
    by (simp_all add: show_int_def digits.simps)
  have a1: "annotate (DeleteChange ''-const n = 7;'' 41) = ''41 -const n = 7;''"
    using t [of "DeleteChange ''-const n = 7;'' 41"] d by simp
  have a2: "annotate (NormalChange '' const a = 1;'' 39 40) = ''40  const a = 1;''"
    using t [of "NormalChange '' const a = 1;'' 39 40"] d by simp
  have a3: "annotate (AddChange ''+const limit = 42;'' 42) = ''42 +const limit = 42;''"
    using t [of "AddChange ''+const limit = 42;'' 42"] d by simp
  have m: "AddChange ''+const limit = 42;'' 42 \<in> set (changes sample_chunk)"
    by (simp add: sample_chunk_def)
  have f: "to sample_file = Some ''src/limit.ts''" by (simp add: sample_file_def)
  have g: "FRAMEWORK (sample_env\<lparr>exclude := []\<rparr>) = FRAMEWORK sample_env \<and>
           guidelines (sample_env\<lparr>exclude := []\<rparr>) = guidelines sample_env"
    by (simp add: guidelines_def)
  from t [of "AddChange ''+const limit = 42;'' 42"]
  have "\<forall>c \<in> set (changes sample_chunk).
      sublist (annotate c) (createPrompt sample_env sample_file sample_chunk sample_prDetails) \<and>
      sublist (annotate c) (createPrompt_old sample_env sample_file sample_chunk sample_prDetails)"
    by (elim conjE)
  with m a3
  have b: "sublist ''42 +const limit = 42;'' (createPrompt sample_env sample_file sample_chunk sample_prDetails)"
    "sublist ''42 +const limit = 42;'' (createPrompt_old sample_env sample_file sample_chunk sample_prDetails)"
    by (metis (no_types, lifting))+
  from t [of "AddChange ''+const limit = 42;'' 42"]
  have "sublist (show_to sample_file) (createPrompt sample_env sample_file sample_chunk sample_prDetails)"
    by (elim conjE)
  moreover from t [of "AddChange ''+const limit = 42;'' 42"]
  have "to sample_file = Some ''src/limit.ts'' \<longrightarrow> show_to sample_file = ''src/limit.ts''"
    by (elim conjE)
  ultimately
  have c: "sublist ''src/limit.ts'' (createPrompt sample_env sample_file sample_chunk sample_prDetails)"
    using f by simp
  from createPrompt_contents [of "sample_env\<lparr>exclude := []\<rparr>" sample_env
      sample_file sample_chunk sample_prDetails "AddChange ''+const limit = 42;'' 42" "''src/limit.ts''"]
  have "FRAMEWORK (sample_env\<lparr>exclude := []\<rparr>) = FRAMEWORK sample_env \<and>
        guidelines (sample_env\<lparr>exclude := []\<rparr>) = guidelines sample_env \<longrightarrow>
        createPrompt (sample_env\<lparr>exclude := []\<rparr>) sample_file sample_chunk sample_prDetails
          = createPrompt sample_env sample_file sample_chunk sample_prDetails"
    by (elim conjE)
  with g
  have e: "createPrompt (sample_env\<lparr>exclude := []\<rparr>) sample_file sample_chunk sample_prDetails
     = createPrompt sample_env sample_file sample_chunk sample_prDetails"
    by simp
  from a1 a2 b c e show ?thesis by (intro conjI)
qed

text \<open>
  C7 as stated fails on \<open>src/main.ts\<close>: its prompt has no list of review dimensions. For
  a framework without guideline text, none of the six names occurs in it (tested without
  the first letter, so in either case).
\<close>

theorem createPrompt_no_dimensions_counterexample:
  "guidelines sample_env = [] \<and>
   \<not> sublist ''ecurity'' (createPrompt sample_env sample_file sample_chunk sample_prDetails) \<and>
   \<not> sublist ''erformance'' (createPrompt sample_env sample_file sample_chunk sample_prDetails) \<and>
   \<not> sublist ''aintainab'' (createPrompt sample_env sample_file sample_chunk sample_prDetails) \<and>
   \<not> sublist ''ractices'' (createPrompt sample_env sample_file sample_chunk sample_prDetails) \<and>
   \<not> sublist ''esting'' (createPrompt sample_env sample_file sample_chunk sample_prDetails) \<and>
   \<not> sublist ''ocumentation'' (createPrompt sample_env sample_file sample_chunk sample_prDetails)"
  by (simp add: createPrompt_def guidelines_def sample_env_def sample_file_def sample_chunk_def
      sample_prDetails_def show_to_def annotate_def show_int_def digits.simps sublist_Cons_right)

end
